theory Spec2Isabelle
  imports Main "HOL-Library.Multiset" "HOL-Library.AList"
begin

section \<open>Strings as the JavaScript source uses them\<close>

text \<open>
  A JavaScript string is modelled as a \<^typ>\<open>string\<close>; one \<^typ>\<open>char\<close> stands for one
  code unit. Every literal of the source lies in Latin-1, so the accented letters of the
  key names are written with their code (\<open>CHR 0xC7\<close>, \<open>CHR 0xE7\<close>).
\<close>

definition startsWith :: "string \<Rightarrow> string \<Rightarrow> bool" where
  "startsWith s p = (take (length p) s = p)"

definition endsWith :: "string \<Rightarrow> string \<Rightarrow> bool" where
  "endsWith s p = (length p \<le> length s \<and> drop (length s - length p) s = p)"

text \<open>\<open>String.prototype.trim\<close>: the white space and line terminators below code 256.\<close>

definition is_space :: "char \<Rightarrow> bool" where
  "is_space c = (c \<in> set [CHR 0x09, CHR 0x0A, CHR 0x0B, CHR 0x0C, CHR 0x0D, CHR 0x20, CHR 0xA0])"

definition trim :: "string \<Rightarrow> string" where
  "trim s = rev (dropWhile is_space (rev (dropWhile is_space s)))"

text \<open>\<open>s.split(d)\<close> for a one-character separator: never the empty list.\<close>

fun split_on :: "char \<Rightarrow> string \<Rightarrow> string list" where
  "split_on d [] = [[]]"
| "split_on d (c # cs) =
     (if c = d then [] # split_on d cs
      else (case split_on d cs of [] \<Rightarrow> [[c]] | l # ls \<Rightarrow> (c # l) # ls))"

text \<open>\<open>lines.join('\n')\<close>.\<close>

fun join_nl :: "string list \<Rightarrow> string" where
  "join_nl [] = []"
| "join_nl [l] = l"
| "join_nl (l # ls) = l @ CHR 0x0A # join_nl ls"

text \<open>The decimal numeral a template literal prints for a non-negative integer.\<close>

definition digito :: "nat \<Rightarrow> char" where
  "digito n = ''0123456789'' ! n"

function decimal :: "nat \<Rightarrow> string" where
  "decimal n = (if n < 10 then [digito n] else decimal (n div 10) @ [digito (n mod 10)])"
  by pat_completeness auto
termination
  by (relation "measure (\<lambda>n. n)") auto

declare decimal.simps [simp del]

text \<open>\<open>Array.prototype.find\<close> and \<open>findIndex\<close> (\<open>None\<close> for \<open>undefined\<close> and \<open>-1\<close>).\<close>

fun findIndex :: "('a \<Rightarrow> bool) \<Rightarrow> 'a list \<Rightarrow> nat option" where
  "findIndex P [] = None"
| "findIndex P (x # xs) =
     (if P x then Some 0 else map_option Suc (findIndex P xs))"

section \<open>The persistent store\<close>

text \<open>
  The document of the store holds the environments, the profiles and the logins; only
  these collections are kept here, since \<open>version\<close>, \<open>admin\<close>, \<open>bancosDisponiveis\<close> and
  \<open>ultimaSincronizacao\<close> are never read or written by the operations below.
  \<open>Date.now()\<close> is the parameter \<open>agora\<close>, one instant for one call of an operation, and
  a time stamp is kept as that instant. The SHA-256 hex digest of \<open>crypto\<close> is the parameter
  \<open>sha256\<close>. A \<open>bancosPermitidos\<close> that is absent or \<open>null\<close> is the empty list, which is how
  the reconciliation treats it.
\<close>

record ambiente =
  id_a :: string
  nome :: string
  porta :: nat
  path :: string
  username :: string
  passwordHash :: string
  bancosPermitidos :: "string list"
  pipelineKentro :: "string option"
  criadoEm :: nat
  atualizadoEm :: nat
  ativo :: bool

record perfil =
  id_p :: string
  nome_p :: string
  permissoes :: "(string \<times> bool) list"
  ativo_p :: bool

record login =
  id_l :: string
  username_l :: string
  passwordHash_l :: string
  ambienteId :: string
  perfilId :: "string option"
  ativo_l :: bool

record database =
  perfis :: "perfil list"
  logins :: "login list"
  ambientes :: "ambiente list"

subsection \<open>The file and the object in memory\<close>

text \<open>
  The state of the store is the file \<open>database.json\<close> (absent, unreadable, or holding a
  document) together with the object \<open>DB_SCHEMA\<close> of the process. \<open>saveDatabase\<close> answers
  whether the write was done; that answer is a parameter of every operation that writes
  (\<open>saved\<close>), and a write that fails leaves the file as it was. \<open>loadDatabase\<close> parses the
  file into a fresh object; when the file is absent it tries to create it from \<open>DB_SCHEMA\<close>
  (the outcome of that write is the parameter \<open>criou\<close>), and when the file is absent or
  cannot be read it returns the object \<open>DB_SCHEMA\<close> itself, not a copy: the flag it returns
  says so, and what an operation then changes in the document is changed in \<open>DB_SCHEMA\<close>,
  whether the write that follows is done or not.
\<close>

datatype arquivo_db = Ausente | Ilegivel | Conteudo database

record armazenamento =
  arquivo :: arquivo_db
  esquema :: database

text \<open>\<open>DB_SCHEMA\<close> as the module creates it: no profile, no login, no environment.\<close>

definition DB_SCHEMA :: database where
  "DB_SCHEMA = \<lparr> perfis = [], logins = [], ambientes = [] \<rparr>"

definition saveDatabase :: "bool \<Rightarrow> database \<Rightarrow> armazenamento \<Rightarrow> bool \<times> armazenamento" where
  "saveDatabase saved data s =
     (if saved then (True, s\<lparr>arquivo := Conteudo data\<rparr>) else (False, s))"

definition loadDatabase :: "bool \<Rightarrow> armazenamento \<Rightarrow> database \<times> bool \<times> armazenamento" where
  "loadDatabase criou s =
     (case arquivo s of
        Conteudo d \<Rightarrow> (d, False, s)
      | Ausente \<Rightarrow> (esquema s, True, snd (saveDatabase criou (esquema s) s))
      | Ilegivel \<Rightarrow> (esquema s, True, s))"

text \<open>
  An operation changes the document it loaded and calls \<open>saveDatabase\<close> on it: \<open>db'\<close> is
  the document after the change, \<open>alias\<close> says that the document is \<open>DB_SCHEMA\<close> itself.
\<close>

definition salvar_mutado :: "bool \<Rightarrow> bool \<Rightarrow> database \<Rightarrow> armazenamento \<Rightarrow> bool \<times> armazenamento" where
  "salvar_mutado alias saved db' s =
     saveDatabase saved db' (if alias then s\<lparr>esquema := db'\<rparr> else s)"

text \<open>The document the next \<open>loadDatabase\<close> returns.\<close>

definition visivel :: "armazenamento \<Rightarrow> database" where
  "visivel s = (case arquivo s of Conteudo d \<Rightarrow> d | Ausente \<Rightarrow> esquema s | Ilegivel \<Rightarrow> esquema s)"

subsection \<open>Creating an environment\<close>

definition hashPassword :: "(string \<Rightarrow> string) \<Rightarrow> string \<Rightarrow> string" where
  "hashPassword sha256 password = sha256 password"

definition verifyPassword :: "(string \<Rightarrow> string) \<Rightarrow> string \<Rightarrow> string \<Rightarrow> bool" where
  "verifyPassword sha256 password hash = (hashPassword sha256 password = hash)"

datatype erro_ambiente = PortaEmUso nat | AmbienteJaExiste string | AmbienteNaoEncontrado
  | ErroAoSalvar

text \<open>
  The sanitized view \<open>createAmbiente\<close> returns: no user name, no hash. The function
  overwrites its \<open>pipelineKentro\<close> argument with \<open>null\<close> on entry and writes \<open>null\<close> in the
  object literal, so the argument \<open>pipeline\<close> occurs nowhere in the body. It does not look
  at what \<open>saveDatabase\<close> returned: the answer is a success also when the write failed.
\<close>

record ambiente_criado =
  id_c :: string
  nome_c :: string
  porta_c :: nat
  path_c :: string
  bancosPermitidos_c :: "string list"

definition novoAmbiente ::
  "(string \<Rightarrow> string) \<Rightarrow> nat \<Rightarrow> string \<Rightarrow> nat \<Rightarrow> string \<Rightarrow> string \<Rightarrow> string list \<Rightarrow> ambiente" where
  "novoAmbiente sha256 agora nome' porta' username' password bancos =
     \<lparr> id_a = ''ambiente-'' @ decimal agora,
       nome = nome',
       porta = porta',
       path = ''rota-'' @ decimal porta' @ ''.producao'',
       username = username',
       passwordHash = hashPassword sha256 password,
       bancosPermitidos = bancos,
       pipelineKentro = None,
       criadoEm = agora,
       atualizadoEm = agora,
       ativo = True \<rparr>"

definition createAmbiente ::
  "(string \<Rightarrow> string) \<Rightarrow> nat \<Rightarrow> bool \<Rightarrow> bool \<Rightarrow> string \<Rightarrow> nat \<Rightarrow> string \<Rightarrow> string
    \<Rightarrow> string list \<Rightarrow> string option \<Rightarrow> armazenamento
    \<Rightarrow> (erro_ambiente + ambiente_criado) \<times> armazenamento" where
  "createAmbiente sha256 agora criou saved nome' porta' username' password bancos pipeline s =
     (case loadDatabase criou s of
        (db, alias, s1) \<Rightarrow>
          (case find (\<lambda>a. porta a = porta') (ambientes db) of
             Some _ \<Rightarrow> (Inl (PortaEmUso porta'), s1)
           | None \<Rightarrow>
               (case find (\<lambda>a. nome a = nome') (ambientes db) of
                  Some _ \<Rightarrow> (Inl (AmbienteJaExiste nome'), s1)
                | None \<Rightarrow>
                    (let novo = novoAmbiente sha256 agora nome' porta' username' password bancos;
                         r = salvar_mutado alias saved (db\<lparr>ambientes := ambientes db @ [novo]\<rparr>) s1
                     in (Inr \<lparr> id_c = id_a novo, nome_c = nome novo, porta_c = porta novo,
                                path_c = path novo, bancosPermitidos_c = bancosPermitidos novo \<rparr>,
                         snd r)))))"

subsection \<open>Updating an environment\<close>

text \<open>
  \<open>dados\<close> of \<open>updateAmbiente\<close>: a field the caller left out is \<open>undefined\<close> (\<open>None\<close>); the
  pipeline may also be given as \<open>null\<close> (\<open>Some None\<close>).
\<close>

record dados_ambiente =
  nome_u :: "string option"
  pipelineKentro_u :: "string option option"
  ativo_u :: "bool option"

text \<open>The object \<open>find\<close> returned is mutated in place: the first element that matches.\<close>

fun atualizar_primeiro :: "('a \<Rightarrow> bool) \<Rightarrow> ('a \<Rightarrow> 'a) \<Rightarrow> 'a list \<Rightarrow> 'a list" where
  "atualizar_primeiro P f [] = []"
| "atualizar_primeiro P f (x # xs) =
     (if P x then f x # xs else x # atualizar_primeiro P f xs)"

definition updateBancosPermitidos ::
  "nat \<Rightarrow> bool \<Rightarrow> bool \<Rightarrow> string \<Rightarrow> string list \<Rightarrow> armazenamento
    \<Rightarrow> (erro_ambiente + ambiente) \<times> armazenamento" where
  "updateBancosPermitidos agora criou saved ambienteId' bancos s =
     (case loadDatabase criou s of
        (db, alias, s1) \<Rightarrow>
          (case find (\<lambda>a. id_a a = ambienteId') (ambientes db) of
             None \<Rightarrow> (Inl AmbienteNaoEncontrado, s1)
           | Some a \<Rightarrow>
               (let a' = a\<lparr>bancosPermitidos := bancos, atualizadoEm := agora\<rparr>;
                    r = salvar_mutado alias saved
                          (db\<lparr>ambientes :=
                               atualizar_primeiro (\<lambda>a. id_a a = ambienteId') (\<lambda>_. a') (ambientes db)\<rparr>)
                          s1
                in if \<not> fst r then (Inl ErroAoSalvar, snd r) else (Inr a', snd r))))"

definition updateAmbiente ::
  "nat \<Rightarrow> bool \<Rightarrow> bool \<Rightarrow> string \<Rightarrow> dados_ambiente \<Rightarrow> armazenamento
    \<Rightarrow> (erro_ambiente + ambiente) \<times> armazenamento" where
  "updateAmbiente agora criou saved ambienteId' dados s =
     (case loadDatabase criou s of
        (db, alias, s1) \<Rightarrow>
          (case find (\<lambda>a. id_a a = ambienteId') (ambientes db) of
             None \<Rightarrow> (Inl AmbienteNaoEncontrado, s1)
           | Some a \<Rightarrow>
               (case (case nome_u dados of
                        None \<Rightarrow> Inr a
                      | Some n \<Rightarrow>
                          (case find (\<lambda>b. nome b = n \<and> id_a b \<noteq> ambienteId') (ambientes db) of
                             Some _ \<Rightarrow> Inl (AmbienteJaExiste n)
                           | None \<Rightarrow> Inr (a\<lparr>nome := n\<rparr>))) of
                  Inl e \<Rightarrow> (Inl e, s1)
                | Inr a1 \<Rightarrow>
                    (let a2 = (case pipelineKentro_u dados of
                                 None \<Rightarrow> a1
                               | Some v \<Rightarrow>
                                   a1\<lparr>pipelineKentro :=
                                        (case v of None \<Rightarrow> None
                                         | Some t \<Rightarrow> if t = [] then None else Some t)\<rparr>);
                         a3 = (case ativo_u dados of None \<Rightarrow> a2 | Some b \<Rightarrow> a2\<lparr>ativo := b\<rparr>);
                         a4 = a3\<lparr>atualizadoEm := agora\<rparr>;
                         r = salvar_mutado alias saved
                               (db\<lparr>ambientes :=
                                    atualizar_primeiro (\<lambda>a. id_a a = ambienteId') (\<lambda>_. a4)
                                      (ambientes db)\<rparr>)
                               s1
                     in (Inr a4, snd r)))))"

subsection \<open>Deleting an environment\<close>

text \<open>
  \<open>deleteAmbiente\<close> splices the record out of the document it loaded, saves, and returns a
  failure when the write was not done. What happens to the directory afterwards is the
  parameter \<open>pasta\<close>, asked at the environment's path.
\<close>

datatype remocao_pasta = PastaNaoEncontrada | PastaRemovida | FalhaAoRemover string

datatype ambiente_deletado =
    AmbienteEPastaDeletados
  | AmbienteDeletadoPastaNaoEncontrada
  | AmbienteDeletadoErroNaPasta (warning: string)

definition deleteAmbiente ::
  "bool \<Rightarrow> bool \<Rightarrow> (string \<Rightarrow> remocao_pasta) \<Rightarrow> string \<Rightarrow> armazenamento
    \<Rightarrow> (erro_ambiente + ambiente_deletado) \<times> armazenamento" where
  "deleteAmbiente criou saved pasta ambienteId' s =
     (case loadDatabase criou s of
        (db, alias, s1) \<Rightarrow>
          (case findIndex (\<lambda>a. id_a a = ambienteId') (ambientes db) of
             None \<Rightarrow> (Inl AmbienteNaoEncontrado, s1)
           | Some index \<Rightarrow>
               (let a = ambientes db ! index;
                    r = salvar_mutado alias saved
                          (db\<lparr>ambientes :=
                               take index (ambientes db) @ drop (Suc index) (ambientes db)\<rparr>)
                          s1
                in if \<not> fst r then (Inl ErroAoSalvar, snd r)
                   else (case pasta (path a) of
                           PastaRemovida \<Rightarrow> (Inr AmbienteEPastaDeletados, snd r)
                         | PastaNaoEncontrada \<Rightarrow> (Inr AmbienteDeletadoPastaNaoEncontrada, snd r)
                         | FalhaAoRemover msg \<Rightarrow> (Inr (AmbienteDeletadoErroNaPasta msg), snd r)))))"

subsection \<open>Authenticating a login\<close>

text \<open>
  \<open>authenticateLogin\<close> only reads: \<open>db\<close> is the document that \<open>loadDatabase\<close> returned.
  \<open>String.prototype.toLowerCase\<close> is taken on code units below 256.
\<close>

definition lower_char :: "char \<Rightarrow> char" where
  "lower_char c =
     (let n = (of_char c :: nat) in
      if (65 \<le> n \<and> n \<le> 90) \<or> (192 \<le> n \<and> n \<le> 222 \<and> n \<noteq> 215)
      then char_of (n + 32) else c)"

definition toLowerCase :: "string \<Rightarrow> string" where
  "toLowerCase s = map lower_char s"

datatype errorCode = USER_NOT_FOUND | USER_INACTIVE | INVALID_PASSWORD | PERFIL_INACTIVE
  | AMBIENTE_NOT_FOUND | AMBIENTE_INACTIVE

text \<open>The profile a login refers to: none when \<open>perfilId\<close> is \<open>null\<close> or the empty string.\<close>

definition perfil_do_login :: "database \<Rightarrow> login \<Rightarrow> perfil option" where
  "perfil_do_login db l =
     (case perfilId l of
        None \<Rightarrow> None
      | Some pid \<Rightarrow> if pid = [] then None else find (\<lambda>p. id_p p = pid) (perfis db))"

definition buscar_login :: "database \<Rightarrow> string \<Rightarrow> login option" where
  "buscar_login db username' =
     (let usernameNormalizado = (if username' \<noteq> [] then toLowerCase (trim username') else [])
      in find (\<lambda>l. username_l l \<noteq> [] \<and> toLowerCase (username_l l) = usernameNormalizado)
           (logins db))"

definition authenticateLogin ::
  "(string \<Rightarrow> string) \<Rightarrow> database \<Rightarrow> string \<Rightarrow> string
    \<Rightarrow> errorCode + (login \<times> perfil option \<times> ambiente)" where
  "authenticateLogin sha256 db username' password =
     (case buscar_login db username' of
        None \<Rightarrow> Inl USER_NOT_FOUND
      | Some l \<Rightarrow>
          if \<not> ativo_l l then Inl USER_INACTIVE
          else if \<not> verifyPassword sha256 password (passwordHash_l l) then Inl INVALID_PASSWORD
          else
            (let perfil' = perfil_do_login db l in
             if (case perfil' of Some p \<Rightarrow> \<not> ativo_p p | None \<Rightarrow> False)
             then Inl PERFIL_INACTIVE
             else
               (case find (\<lambda>a. id_a a = ambienteId l) (ambientes db) of
                  None \<Rightarrow> Inl AMBIENTE_NOT_FOUND
                | Some a \<Rightarrow>
                    if \<not> ativo a then Inl AMBIENTE_INACTIVE
                    else Inr (l, perfil', a))))"


section \<open>Detecting environments on disk\<close>

text \<open>
  What \<open>detectarAmbientesExistentes\<close> reads of the file system: the entries of
  \<open>BASE_PATH\<close> (\<open>None\<close> when \<open>readdirSync\<close> throws) and, for each entry, whether \<open>statSync\<close>
  finds a directory (\<open>None\<close> when it throws) and which names \<open>existsSync\<close> finds below it.
\<close>

record entrada_base =
  item :: string
  eh_diretorio :: "bool option"
  conteudo :: "string list"

record ambiente_detectado =
  nome_d :: string
  porta_d :: nat
  path_d :: string
  pathCompleto :: string
  bancosPermitidos_d :: "string list"
  existe :: bool
  temEnv :: bool

definition BASE_PATH :: string where
  "BASE_PATH = ''/opt/lunas-digital''"

definition is_digit :: "char \<Rightarrow> bool" where
  "is_digit c = (c \<in> set ''0123456789'')"

text \<open>
  The regular expression \<open>/rota-(\d+)\.producao/\<close> is not anchored: \<open>match\<close> returns the
  leftmost match. At one position the digits are all the digits that follow \<open>rota-\<close>, since
  the next character has to be the dot. The result is the capture group.
\<close>

definition match_aqui :: "string \<Rightarrow> string option" where
  "match_aqui s =
     (if startsWith s ''rota-'' then
        (let r = drop 5 s; ds = takeWhile is_digit r; resto = dropWhile is_digit r
         in if ds \<noteq> [] \<and> startsWith resto ''.producao'' then Some ds else None)
      else None)"

fun match_rota :: "string \<Rightarrow> string option" where
  "match_rota [] = None"
| "match_rota (c # cs) =
     (case match_aqui (c # cs) of Some ds \<Rightarrow> Some ds | None \<Rightarrow> match_rota cs)"

text \<open>
  \<open>parseInt\<close> of a string of decimal digits, as an exact natural number (JavaScript rounds
  above \<open>2^53\<close>, that is for directory names with more than fifteen digits).
\<close>

definition valor_digito :: "char \<Rightarrow> nat" where
  "valor_digito c = length (takeWhile (\<lambda>d. d \<noteq> c) ''0123456789'')"

definition parseInt :: "string \<Rightarrow> nat" where
  "parseInt ds = foldl (\<lambda>n c. 10 * n + valor_digito c) 0 ds"

definition pasta_presencabank :: string where
  "pasta_presencabank = ''presen'' @ [CHR 0xE7] @ ''abank''"

definition bancosPossiveis :: "string list" where
  "bancosPossiveis = [pasta_presencabank, ''V8'', ''hubcredito'']"

text \<open>\<open>mapeamentoBancos[b] || b\<close> of the detector: folder name to identifier.\<close>

definition id_da_pasta :: "string \<Rightarrow> string" where
  "id_da_pasta b =
     (if b = pasta_presencabank then ''presencabank''
      else if b = ''V8'' then ''v8''
      else if b = ''hubcredito'' then ''hubcredito''
      else b)"

definition detectar_item :: "entrada_base \<Rightarrow> ambiente_detectado option" where
  "detectar_item e =
     (if startsWith (item e) ''rota-'' \<and> endsWith (item e) ''.producao''
         \<and> item e \<noteq> ''rota-7000.producao''
      then
        (case eh_diretorio e of
           None \<Rightarrow> None
         | Some False \<Rightarrow> None
         | Some True \<Rightarrow>
             (case match_rota (item e) of
                None \<Rightarrow> None
              | Some ds \<Rightarrow>
                  (let porta' = parseInt ds in
                   if porta' = 7000 then None
                   else Some \<lparr> nome_d = ''Ambiente '' @ decimal porta',
                               porta_d = porta',
                               path_d = item e,
                               pathCompleto = BASE_PATH @ ''/'' @ item e,
                               bancosPermitidos_d =
                                 map id_da_pasta
                                   (filter (\<lambda>banco. banco \<in> set (conteudo e)) bancosPossiveis),
                               existe = True,
                               temEnv = (''.env'' \<in> set (conteudo e)) \<rparr>)))
      else None)"

definition detectarAmbientesExistentes :: "entrada_base list option \<Rightarrow> ambiente_detectado list" where
  "detectarAmbientesExistentes base =
     (case base of
        None \<Rightarrow> []
      | Some items \<Rightarrow> sort_key porta_d (List.map_filter detectar_item items))"

section \<open>Reconciling the store with the disk\<close>

datatype status_sinc = JaRegistrado | MarcadoComoInativo

record resultados_sinc =
  criados :: "(string \<times> string \<times> nat \<times> string \<times> string) list"
  atualizados :: "(string \<times> string \<times> nat) list"
  existentes :: "(string \<times> string \<times> nat \<times> status_sinc) list"

text \<open>
  One turn of the first \<open>forEach\<close> of \<open>sincronizarAmbientesExistentes\<close>, on the list
  \<open>db.ambientes\<close> and the result lists. A record created here has no \<open>pipelineKentro\<close> field.
\<close>

definition registrar_detectado ::
  "(string \<Rightarrow> string) \<Rightarrow> nat \<Rightarrow> ambiente_detectado \<Rightarrow> ambiente list \<times> resultados_sinc
    \<Rightarrow> ambiente list \<times> resultados_sinc" where
  "registrar_detectado sha256 agora d st =
     (case st of (ambs, res) \<Rightarrow>
        if porta_d d = 7000 then (ambs, res)
        else
          (case find (\<lambda>a. porta a = porta_d d) ambs of
             Some ex \<Rightarrow>
               (let mudou = (path ex \<noteq> path_d d) in
                (atualizar_primeiro (\<lambda>a. porta a = porta_d d)
                   (\<lambda>ex. ex\<lparr> path := path_d d,
                              bancosPermitidos :=
                                (if bancosPermitidos ex = [] then bancosPermitidos_d d
                                 else bancosPermitidos ex),
                              atualizadoEm := agora,
                              ativo := True \<rparr>) ambs,
                 if mudou
                 then res\<lparr>atualizados := atualizados res @ [(id_a ex, nome ex, porta ex)]\<rparr>
                 else res\<lparr>existentes :=
                            existentes res @ [(id_a ex, nome ex, porta ex, JaRegistrado)]\<rparr>))
           | None \<Rightarrow>
               (let novo = \<lparr> id_a = ''ambiente-'' @ decimal agora @ ''-'' @ decimal (porta_d d),
                             nome = nome_d d,
                             porta = porta_d d,
                             path = path_d d,
                             username = ''admin-'' @ decimal (porta_d d),
                             passwordHash = hashPassword sha256 (''admin'' @ decimal (porta_d d)),
                             bancosPermitidos = bancosPermitidos_d d,
                             pipelineKentro = None,
                             criadoEm = agora,
                             atualizadoEm = agora,
                             ativo = True \<rparr>
                in (ambs @ [novo],
                    res\<lparr>criados := criados res @
                          [(id_a novo, nome novo, porta novo, username novo,
                            ''admin'' @ decimal (porta_d d))]\<rparr>))))"

text \<open>The second \<open>forEach\<close>: what is not on disk any more, port 4000 apart, is made inactive.\<close>

definition fora_do_disco :: "ambiente_detectado list \<Rightarrow> ambiente \<Rightarrow> bool" where
  "fora_do_disco detectados a =
     (find (\<lambda>d. porta_d d = porta a) detectados = None \<and> porta a \<noteq> 4000)"

definition marcar_inativos ::
  "ambiente_detectado list \<Rightarrow> ambiente list \<times> resultados_sinc \<Rightarrow> ambiente list \<times> resultados_sinc" where
  "marcar_inativos detectados st =
     (case st of (ambs, res) \<Rightarrow>
        (map (\<lambda>a. if fora_do_disco detectados a then a\<lparr>ativo := False\<rparr> else a) ambs,
         res\<lparr>existentes := existentes res @
               map (\<lambda>a. (id_a a, nome a, porta a, MarcadoComoInativo))
                 (filter (fora_do_disco detectados) ambs)\<rparr>))"

text \<open>The two loops, on the list \<open>db.ambientes\<close> of the loaded document.\<close>

definition reconciliar ::
  "(string \<Rightarrow> string) \<Rightarrow> nat \<Rightarrow> ambiente_detectado list \<Rightarrow> ambiente list
    \<Rightarrow> ambiente list \<times> resultados_sinc" where
  "reconciliar sha256 agora ambientesDetectados ambs =
     marcar_inativos ambientesDetectados
       (fold (registrar_detectado sha256 agora) ambientesDetectados
          (ambs, \<lparr> criados = [], atualizados = [], existentes = [] \<rparr>))"

record resultado_sinc =
  totalDetectados :: nat
  resultados :: resultados_sinc

text \<open>
  \<open>sincronizarAmbientesExistentes\<close> detects, loads, runs the two loops and saves; it does
  not look at what \<open>saveDatabase\<close> returned.
\<close>

definition sincronizarAmbientesExistentes ::
  "(string \<Rightarrow> string) \<Rightarrow> nat \<Rightarrow> entrada_base list option \<Rightarrow> bool \<Rightarrow> bool \<Rightarrow> armazenamento
    \<Rightarrow> resultado_sinc \<times> armazenamento" where
  "sincronizarAmbientesExistentes sha256 agora base criou saved s =
     (let ambientesDetectados = detectarAmbientesExistentes base in
      case loadDatabase criou s of
        (db, alias, s1) \<Rightarrow>
          (let st2 = reconciliar sha256 agora ambientesDetectados (ambientes db);
               r = salvar_mutado alias saved (db\<lparr>ambientes := fst st2\<rparr>) s1
           in (\<lparr> totalDetectados = length ambientesDetectados, resultados = snd st2 \<rparr>,
               snd r)))"

section \<open>The credential codec\<close>

text \<open>
  \<open>atualizarCredenciaisBanco\<close> and \<open>obterCredenciaisBanco\<close> of the environment manager, on the
  text of the environment's \<open>.env\<close> file (\<open>None\<close> when the file does not exist). The
  environment is what \<open>getAmbiente\<close> returned; the external check of the credentials is the
  parameter \<open>validar\<close>, which accepts, rejects or throws.
\<close>

record campos =
  campo_login :: string
  campo_senha :: string
  campo_usr :: string
  campo_pass :: string

definition mapeamentoCredenciais :: "string \<Rightarrow> campos option" where
  "mapeamentoCredenciais bancoId =
     (if bancoId = ''presencabank'' then
        Some \<lparr> campo_login = ''PRECEN'' @ [CHR 0xC7] @ ''ABANK_LOGIN'',
               campo_senha = ''PRECEN'' @ [CHR 0xC7] @ ''ABANK_SENHA'',
               campo_usr = ''PRECEN'' @ [CHR 0xC7] @ ''ABANK_USR'',
               campo_pass = ''PRECEN'' @ [CHR 0xC7] @ ''ABANK_PASS'' \<rparr>
      else if bancoId = ''v8'' then
        Some \<lparr> campo_login = ''V8_USERNAME'', campo_senha = ''V8_PASSWORD'',
               campo_usr = ''V8_USR'', campo_pass = ''V8_PASS'' \<rparr>
      else if bancoId = ''hubcredito'' then
        Some \<lparr> campo_login = ''HUBCREDITO_USR'', campo_senha = ''HUBCREDITO_PASS'',
               campo_usr = ''HUBCREDITO_USR'', campo_pass = ''HUBCREDITO_PASS'' \<rparr>
      else None)"

record credenciais =
  cred_login :: "string option"
  cred_senha :: "string option"

text \<open>A field the caller supplied: neither \<open>undefined\<close> nor the empty string.\<close>

definition fornecido :: "string option \<Rightarrow> bool" where
  "fornecido v = (case v of None \<Rightarrow> False | Some s \<Rightarrow> s \<noteq> [])"

datatype validacao_externa = TokenValido | TokenRejeitado string | ValidacaoLancou string

datatype erro_manager =
    ManagerAmbienteNaoEncontrado
  | BancoNaoPermitido
  | ValidacaoDeTokenFalhou string
  | BancoSemMapeamento string
  | NenhumaCredencialFornecida
  | ArquivoEnvNaoEncontrado

text \<open>\<open>campos.login || campos.usr\<close> and \<open>campos.senha || campos.pass\<close>.\<close>

definition campoLogin :: "campos \<Rightarrow> string" where
  "campoLogin c = (if campo_login c \<noteq> [] then campo_login c else campo_usr c)"

definition campoSenha :: "campos \<Rightarrow> string" where
  "campoSenha c = (if campo_senha c \<noteq> [] then campo_senha c else campo_pass c)"

definition linha_de_login :: "campos \<Rightarrow> string \<Rightarrow> bool" where
  "linha_de_login c l =
     (startsWith l (campoLogin c @ ''='') \<or> startsWith l (campo_login c @ ''=''))"

definition linha_de_senha :: "campos \<Rightarrow> string \<Rightarrow> bool" where
  "linha_de_senha c l =
     (startsWith l (campoSenha c @ ''='') \<or> startsWith l (campo_senha c @ ''=''))"

text \<open>Replace the first line that matches, or push a new line.\<close>

definition gravar_linha :: "(string \<Rightarrow> bool) \<Rightarrow> string \<Rightarrow> string list \<Rightarrow> string list" where
  "gravar_linha P nova linhas =
     (case findIndex P linhas of
        Some index \<Rightarrow> linhas[index := nova]
      | None \<Rightarrow> linhas @ [nova])"

definition atualizarCredenciaisBanco ::
  "ambiente option \<Rightarrow> string \<Rightarrow> credenciais \<Rightarrow> bool
    \<Rightarrow> (string \<Rightarrow> string \<Rightarrow> string \<Rightarrow> validacao_externa) \<Rightarrow> string option
    \<Rightarrow> erro_manager + (string \<times> validacao_externa option)" where
  "atualizarCredenciaisBanco amb bancoId cred validarToken validar env =
     (case amb of
        None \<Rightarrow> Inl ManagerAmbienteNaoEncontrado
      | Some a \<Rightarrow>
          if bancoId \<notin> set (bancosPermitidos a) then Inl BancoNaoPermitido
          else
            (let validacaoToken =
                   (if validarToken \<and> fornecido (cred_login cred) \<and> fornecido (cred_senha cred)
                    then Some (validar bancoId (the (cred_login cred)) (the (cred_senha cred)))
                    else None)
             in case validacaoToken of
                  Some (TokenRejeitado e) \<Rightarrow> Inl (ValidacaoDeTokenFalhou e)
                | _ \<Rightarrow>
                   (let envContent = (case env of None \<Rightarrow> [] | Some t \<Rightarrow> t) in
                    case mapeamentoCredenciais bancoId of
                      None \<Rightarrow> Inl (BancoSemMapeamento bancoId)
                    | Some c \<Rightarrow>
                       (let linhas0 = split_on (CHR 0x0A) envContent;
                            linhas1 =
                              (if fornecido (cred_login cred)
                               then gravar_linha (linha_de_login c)
                                      (campoLogin c @ ''='' @ the (cred_login cred)) linhas0
                               else linhas0);
                            linhas2 =
                              (if fornecido (cred_senha cred)
                               then gravar_linha (linha_de_senha c)
                                      (campoSenha c @ ''='' @ the (cred_senha cred)) linhas1
                               else linhas1);
                            atualizado = (fornecido (cred_login cred) \<or> fornecido (cred_senha cred))
                        in if atualizado then Inr (join_nl linhas2, validacaoToken)
                           else Inl NenhumaCredencialFornecida))))"

text \<open>\<open>linha.split('=')[1]?.trim() || ''\<close>.\<close>

definition valor_da_linha :: "string \<Rightarrow> string" where
  "valor_da_linha linha =
     (let partes = split_on CHR ''='' linha
      in if 1 < length partes then trim (partes ! 1) else [])"

definition ler_linha :: "campos \<Rightarrow> string \<Rightarrow> credenciais \<Rightarrow> credenciais" where
  "ler_linha c linha cred =
     (let cred1 = (if linha_de_login c linha
                   then cred\<lparr>cred_login := Some (valor_da_linha linha)\<rparr> else cred)
      in if linha_de_senha c linha
         then cred1\<lparr>cred_senha := Some (valor_da_linha linha)\<rparr> else cred1)"

definition obterCredenciaisBanco ::
  "ambiente option \<Rightarrow> string \<Rightarrow> string option \<Rightarrow> erro_manager + credenciais" where
  "obterCredenciaisBanco amb bancoId env =
     (case amb of
        None \<Rightarrow> Inl ManagerAmbienteNaoEncontrado
      | Some a \<Rightarrow>
          (case env of
             None \<Rightarrow> Inl ArquivoEnvNaoEncontrado
           | Some envContent \<Rightarrow>
               (case mapeamentoCredenciais bancoId of
                  None \<Rightarrow> Inl (BancoSemMapeamento bancoId)
                | Some c \<Rightarrow>
                    Inr (fold (ler_linha c) (split_on (CHR 0x0A) envContent)
                           \<lparr> cred_login = None, cred_senha = None \<rparr>))))"

section \<open>Copying a directory tree\<close>

text \<open>
  A file system tree: a file with its content, or a directory with its entries, listed as
  \<open>readdirSync\<close> lists them. A destination directory is changed entry by entry
  (\<open>AList.update\<close> replaces the entry of that name or adds one).
\<close>

datatype no = Arquivo string | Diretorio "(string \<times> no) list"

datatype erro_fs = ENOTDIR | EISDIR

definition ignorado :: "string \<Rightarrow> bool" where
  "ignorado it = (it = ''node_modules'' \<or> it = ''logs'' \<or> it = ''.git'' \<or> startsWith it ''.'')"

record regras =
  manter :: "string list"
  remover :: "string list"

definition chave_presencabank :: string where
  "chave_presencabank = ''PRECEN'' @ [CHR 0xC7] @ ''ABANK_''"

text \<open>\<open>mapeamentoBancos[bancoId] || bancoId\<close> of the manager: identifier to folder name.\<close>

definition pasta_do_banco :: "string \<Rightarrow> string" where
  "pasta_do_banco bancoId =
     (if bancoId = ''presencabank'' then pasta_presencabank
      else if bancoId = ''v8'' then ''V8''
      else if bancoId = ''hubcredito'' then ''hubcredito''
      else bancoId)"

definition credenciaisPorBanco :: "string \<Rightarrow> regras option" where
  "credenciaisPorBanco pasta =
     (if pasta = pasta_presencabank then
        Some \<lparr> manter = [chave_presencabank, ''PORT='', ''NODE_ENV='', ''LOG_'', ''TESTE_'',
                          ''V8_API_URL='', ''V8_AUTH_URL='', ''V8_CLIENT_ID='', ''V8_AUDIENCE='',
                          ''KENTRO_'', ''#''],
               remover = [''HUBCREDITO_'', ''V8_USERNAME='', ''V8_PASSWORD=''] \<rparr>
      else if pasta = ''V8'' then
        Some \<lparr> manter = [''V8_'', ''PORT='', ''NODE_ENV='', ''LOG_'', ''HTTPS_PORT='',
                          ''KENTRO_'', ''#''],
               remover = [chave_presencabank, ''HUBCREDITO_''] \<rparr>
      else if pasta = ''hubcredito'' then
        Some \<lparr> manter = [''HUBCREDITO_'', ''PORT='', ''NODE_ENV='', ''LOG_'', ''TESTE_'',
                          ''V8_API_URL='', ''V8_AUTH_URL='', ''V8_CLIENT_ID='', ''V8_AUDIENCE='',
                          ''KENTRO_'', ''#''],
               remover = [chave_presencabank, ''V8_USERNAME='', ''V8_PASSWORD=''] \<rparr>
      else None)"

definition manter_linha :: "regras \<Rightarrow> string \<Rightarrow> bool" where
  "manter_linha r linha =
     (let linhaTrim = trim linha in
      if linhaTrim = [] \<or> startsWith linhaTrim ''#'' then True
      else (\<exists>prefixo\<in>set (manter r). startsWith linhaTrim prefixo)
           \<and> \<not> (\<exists>prefixo\<in>set (remover r). startsWith linhaTrim prefixo))"

definition filtrar_config :: "regras \<Rightarrow> string \<Rightarrow> string" where
  "filtrar_config r envContent = join_nl (filter (manter_linha r) (split_on (CHR 0x0A) envContent))"

text \<open>
  \<open>limparConfigEnvBanco\<close> on the tree at \<open>bancoPath\<close>: nothing happens unless
  \<open>config/config.env\<close> exists and the integration has rules; reading a directory throws.
\<close>

definition limparConfigEnvBanco :: "no \<Rightarrow> string \<Rightarrow> erro_fs + no" where
  "limparConfigEnvBanco bancoPath bancoId =
     (case bancoPath of
        Arquivo t \<Rightarrow> Inr bancoPath
      | Diretorio es \<Rightarrow>
          (case map_of es ''config'' of
             Some (Diretorio cs) \<Rightarrow>
               (case map_of cs ''config.env'' of
                  None \<Rightarrow> Inr bancoPath
                | Some n \<Rightarrow>
                    (case credenciaisPorBanco (pasta_do_banco bancoId) of
                       None \<Rightarrow> Inr bancoPath
                     | Some r \<Rightarrow>
                         (case n of
                            Diretorio ds \<Rightarrow> Inl EISDIR
                          | Arquivo t \<Rightarrow>
                              Inr (Diretorio
                                (AList.update ''config''
                                   (Diretorio
                                      (AList.update ''config.env'' (Arquivo (filtrar_config r t)) cs))
                                   es)))))
           | _ \<Rightarrow> Inr bancoPath))"

text \<open>
  \<open>copiarDiretorio(origem, destino, bancoId)\<close>: \<open>None\<close> is a path that does not exist. The
  result is the value returned and the tree at \<open>destino\<close>; an exception leaves the function
  with the error. \<open>copiarItens\<close> is the \<open>forEach\<close> over the entries of \<open>origem\<close>, on the tree
  at \<open>destino\<close>, which exists by then. Writing below a path that is a file fails with
  \<open>ENOTDIR\<close>, copying a file over a directory with \<open>EISDIR\<close>.
\<close>

fun copiarDiretorio :: "string option \<Rightarrow> no option \<Rightarrow> no option \<Rightarrow> erro_fs + (bool \<times> no option)"
  and copiarItens :: "string option \<Rightarrow> (string \<times> no) list \<Rightarrow> no \<Rightarrow> erro_fs + no" where
  "copiarDiretorio bancoId None destino = Inr (False, destino)"
| "copiarDiretorio bancoId (Some (Arquivo c)) destino = Inl ENOTDIR"
| "copiarDiretorio bancoId (Some (Diretorio itens)) destino =
     (case copiarItens bancoId itens (case destino of None \<Rightarrow> Diretorio [] | Some d \<Rightarrow> d) of
        Inl e \<Rightarrow> Inl e
      | Inr d \<Rightarrow>
          if fornecido bancoId then
            (case limparConfigEnvBanco d (the bancoId) of
               Inl e \<Rightarrow> Inl e
             | Inr d' \<Rightarrow> Inr (True, Some d'))
          else Inr (True, Some d))"
| "copiarItens bancoId [] d = Inr d"
| "copiarItens bancoId ((it, n) # resto) d =
     (if ignorado it then copiarItens bancoId resto d
      else
        (case d of
           Arquivo t \<Rightarrow> Inl ENOTDIR
         | Diretorio es \<Rightarrow>
             (case n of
                Diretorio sub \<Rightarrow>
                  (case copiarDiretorio bancoId (Some n) (map_of es it) of
                     Inl e \<Rightarrow> Inl e
                   | Inr r \<Rightarrow>
                       (case snd r of
                          None \<Rightarrow> Inl ENOTDIR
                        | Some copia \<Rightarrow>
                            copiarItens bancoId resto (Diretorio (AList.update it copia es))))
              | Arquivo c \<Rightarrow>
                  (case map_of es it of
                     Some (Diretorio ds) \<Rightarrow> Inl EISDIR
                   | _ \<Rightarrow> copiarItens bancoId resto (Diretorio (AList.update it (Arquivo c) es))))))"

section \<open>Batch jobs\<close>

text \<open>
  A batch job of the CLT routes, as the route creates it and \<open>processarLote\<close> runs it. The
  lookup at the partner banks is the parameter \<open>simular\<close>: it answers with one success flag
  for each bank, or the call is rejected (it throws, or its answer cannot be read, inside the
  \<open>try\<close> block). The payloads of the answers are left out.
\<close>

datatype status_lote = Processando | Concluido

record progresso =
  total :: nat
  processados :: nat
  sucesso :: nat
  erro :: nat

record item_lote =
  cpf :: "string option"
  telefone :: "string option"
  dataNascimento :: "string option"

record resultado_item =
  cpf_r :: string
  sucesso_r :: bool
  resultados_r :: "(string \<times> bool) list option"

record lote =
  dados :: "item_lote list"
  bancos :: "string list"
  porta_l :: nat
  ambienteId_l :: string
  status :: status_lote
  progresso :: progresso
  resultados_l :: "resultado_item list"

datatype resposta = Respostas "(string \<times> bool) list" | Rejeitada

type_synonym simulador =
  "string \<Rightarrow> string \<Rightarrow> string option \<Rightarrow> string list \<Rightarrow> nat \<Rightarrow> string \<Rightarrow> resposta"

definition novoLote :: "item_lote list \<Rightarrow> string list \<Rightarrow> nat \<Rightarrow> string \<Rightarrow> lote" where
  "novoLote dados' bancos' porta' ambienteId' =
     \<lparr> dados = dados', bancos = bancos', porta_l = porta', ambienteId_l = ambienteId',
       status = Processando,
       progresso = \<lparr> total = length dados', processados = 0, sucesso = 0, erro = 0 \<rparr>,
       resultados_l = [] \<rparr>"

text \<open>\<open>s.replace(/\D/g, '')\<close>.\<close>

definition so_digitos :: "string \<Rightarrow> string" where
  "so_digitos s = filter is_digit s"

text \<open>
  The \<open>catch\<close> block of the callback: both counters go up, then the result is pushed. The
  push reads \<open>item.cpf.replace\<close> again, which throws once more when \<open>cpf\<close> is no string:
  then the promise of the item is rejected (the flag), after the counters went up.
\<close>

definition item_com_excecao :: "lote \<Rightarrow> item_lote \<Rightarrow> lote \<times> bool" where
  "item_com_excecao l it =
     (let l1 = l\<lparr>progresso := (progresso l)\<lparr> processados := processados (progresso l) + 1,
                                              erro := erro (progresso l) + 1 \<rparr>\<rparr>
      in case cpf it of
           None \<Rightarrow> (l1, True)
         | Some c \<Rightarrow>
             (l1\<lparr>resultados_l := resultados_l l1 @
                    [\<lparr> cpf_r = so_digitos c, sucesso_r = False, resultados_r = None \<rparr>]\<rparr>,
              False))"

text \<open>The callback of one item, from its start to the end of its promise.\<close>

definition processar_item :: "simulador \<Rightarrow> lote \<Rightarrow> item_lote \<Rightarrow> lote \<times> bool" where
  "processar_item simular l it =
     (case cpf it of
        None \<Rightarrow> item_com_excecao l it
      | Some c \<Rightarrow>
          (case telefone it of
             None \<Rightarrow> item_com_excecao l it
           | Some t \<Rightarrow>
               (case simular (so_digitos c) (so_digitos t) (dataNascimento it)
                       (bancos l) (porta_l l) (ambienteId_l l) of
                  Rejeitada \<Rightarrow> item_com_excecao l it
                | Respostas rs \<Rightarrow>
                    (let temSucesso = (\<exists>r\<in>set rs. snd r);
                         p = progresso l;
                         p1 = p\<lparr>processados := processados p + 1\<rparr>;
                         p2 = (if temSucesso then p1\<lparr>sucesso := sucesso p1 + 1\<rparr>
                               else p1\<lparr>erro := erro p1 + 1\<rparr>)
                     in (l\<lparr>progresso := p2,
                           resultados_l := resultados_l l @
                             [\<lparr> cpf_r = so_digitos c, sucesso_r = temSucesso,
                                resultados_r = Some rs \<rparr>]\<rparr>,
                         False)))))"

text \<open>
  One wave: the callbacks of its items update the job one after the other, in the order
  in which they complete. The flag says whether a promise of the wave was rejected, which
  is when \<open>Promise.all\<close> rejects.
\<close>

definition acumular_item :: "simulador \<Rightarrow> item_lote \<Rightarrow> lote \<times> bool \<Rightarrow> lote \<times> bool" where
  "acumular_item simular it st =
     (case processar_item simular (fst st) it of (l', rej) \<Rightarrow> (l', snd st \<or> rej))"

definition processar_onda :: "simulador \<Rightarrow> item_lote list \<Rightarrow> lote \<Rightarrow> lote \<times> bool" where
  "processar_onda simular itens l = fold (acumular_item simular) itens (l, False)"

definition LIMITE_SIMULTANEOS :: nat where
  "LIMITE_SIMULTANEOS = 10"

text \<open>No callback touches the list of items, which is what the loop below terminates by.\<close>

lemma dados_processar_item [simp]: "dados (fst (processar_item simular l it)) = dados l"
  by (simp add: processar_item_def item_com_excecao_def Let_def
      split: option.splits resposta.splits)

lemma dados_acumular_item [simp]: "dados (fst (acumular_item simular it st)) = dados (fst st)"
  using dados_processar_item [of simular "fst st" it]
  by (cases "processar_item simular (fst st) it") (simp add: acumular_item_def)

lemma dados_fold_acumular [simp]:
  "dados (fst (fold (acumular_item simular) itens st)) = dados (fst st)"
  by (induction itens arbitrary: st) simp_all

lemma dados_processar_onda [simp]: "dados (fst (processar_onda simular itens l)) = dados l"
  by (simp add: processar_onda_def)

text \<open>
  The loop of \<open>processarLote\<close>. \<open>ordem\<close> gives the order in which the callbacks of a wave
  complete. When \<open>Promise.all\<close> rejects, the function is left by the exception and the
  status stays as it is.
\<close>

function processarOndas ::
  "simulador \<Rightarrow> (item_lote list \<Rightarrow> item_lote list) \<Rightarrow> nat \<Rightarrow> lote \<Rightarrow> lote" where
  "processarOndas simular ordem i l =
     (if i < length (dados l) then
        (let loteAtual = take LIMITE_SIMULTANEOS (drop i (dados l));
             r = processar_onda simular (ordem loteAtual) l
         in if snd r then fst r
            else processarOndas simular ordem (i + LIMITE_SIMULTANEOS) (fst r))
      else l\<lparr>status := Concluido\<rparr>)"
  by pat_completeness auto
termination
  by (relation "measure (\<lambda>(simular, ordem, i, l). length (dados l) - i)")
     (auto simp: LIMITE_SIMULTANEOS_def)

declare processarOndas.simps [simp del]

definition processarLote ::
  "simulador \<Rightarrow> (item_lote list \<Rightarrow> item_lote list) \<Rightarrow> string \<Rightarrow> (string \<rightharpoonup> lote)
    \<Rightarrow> (string \<rightharpoonup> lote)" where
  "processarLote simular ordem loteId lotesProcessamento =
     (case lotesProcessamento loteId of
        None \<Rightarrow> lotesProcessamento
      | Some l \<Rightarrow> lotesProcessamento(loteId \<mapsto> processarOndas simular ordem 0 l))"

section \<open>Properties of the store\<close>

lemma find_None_set: "find P xs = None \<longleftrightarrow> (\<forall>x\<in>set xs. \<not> P x)"
  by (induction xs) auto

lemma find_Some_set: "find P xs = Some y \<Longrightarrow> y \<in> set xs \<and> P y"
  by (induction xs) (auto split: if_splits)

subsection \<open>Loading and saving\<close>

text \<open>
  \<open>loadDatabase\<close> returns the visible document and does not change it, also when it
  creates the file.
\<close>

lemma loadDatabase_visivel:
  assumes "loadDatabase criou s = (db, alias, s1)"
  shows "db = visivel s" and "visivel s1 = visivel s"
  using assms
  by (auto simp: loadDatabase_def saveDatabase_def visivel_def split: arquivo_db.splits if_splits)

text \<open>
  The change an operation makes to the document it loaded is what the next \<open>loadDatabase\<close>
  returns when the write is done, and also when the document is \<open>DB_SCHEMA\<close> itself and no
  file holds a document: the file is unreadable, or it is absent and could not be created.
\<close>

definition mutacao_fica :: "bool \<Rightarrow> bool \<Rightarrow> armazenamento \<Rightarrow> bool" where
  "mutacao_fica criou saved s =
     (if saved then True
      else (case arquivo s of Conteudo d \<Rightarrow> False | Ausente \<Rightarrow> \<not> criou | Ilegivel \<Rightarrow> True))"

lemma salvar_mutado_visivel:
  assumes "loadDatabase criou s = (db, alias, s1)"
  shows "visivel (snd (salvar_mutado alias saved db' s1))
           = (if mutacao_fica criou saved s then db' else visivel s)"
    and "fst (salvar_mutado alias saved db' s1) = saved"
  using assms
  by (auto simp: loadDatabase_def saveDatabase_def salvar_mutado_def visivel_def mutacao_fica_def
      split: arquivo_db.splits if_splits)

lemma mutacao_fica_saved [simp]: "mutacao_fica criou True s"
  by (simp add: mutacao_fica_def)

lemma mutacao_fica_conteudo [simp]:
  "arquivo s = Conteudo d \<Longrightarrow> mutacao_fica criou saved s = saved"
  by (simp add: mutacao_fica_def)

lemma visivel_conteudo [simp]: "visivel \<lparr> arquivo = Conteudo d, esquema = e \<rparr> = d"
  by (simp add: visivel_def)

lemma visivel_ausente [simp]: "visivel \<lparr> arquivo = Ausente, esquema = e \<rparr> = e"
  by (simp add: visivel_def)

lemma visivel_ilegivel [simp]: "visivel \<lparr> arquivo = Ilegivel, esquema = e \<rparr> = e"
  by (simp add: visivel_def)

subsection \<open>The effect of \<open>createAmbiente\<close>\<close>

lemma createAmbiente_fst:
  "fst (createAmbiente H agora criou saved n p u pw bs pl s) =
     (case find (\<lambda>a. porta a = p) (ambientes (visivel s)) of
        Some _ \<Rightarrow> Inl (PortaEmUso p)
      | None \<Rightarrow>
          (case find (\<lambda>a. nome a = n) (ambientes (visivel s)) of
             Some _ \<Rightarrow> Inl (AmbienteJaExiste n)
           | None \<Rightarrow>
               (let novo = novoAmbiente H agora n p u pw bs in
                Inr \<lparr> id_c = id_a novo, nome_c = nome novo, porta_c = porta novo,
                      path_c = path novo, bancosPermitidos_c = bancosPermitidos novo \<rparr>)))"
proof -
  obtain db al s1 where l: "loadDatabase criou s = (db, al, s1)"
    by (cases "loadDatabase criou s") auto
  from loadDatabase_visivel [OF l] l show ?thesis
    by (simp add: createAmbiente_def Let_def split: option.splits)
qed

lemma createAmbiente_visivel:
  "visivel (snd (createAmbiente H agora criou saved n p u pw bs pl s)) =
     (if find (\<lambda>a. porta a = p) (ambientes (visivel s)) = None
         \<and> find (\<lambda>a. nome a = n) (ambientes (visivel s)) = None
         \<and> mutacao_fica criou saved s
      then (visivel s)\<lparr>ambientes :=
             ambientes (visivel s) @ [novoAmbiente H agora n p u pw bs]\<rparr>
      else visivel s)"
proof -
  obtain db al s1 where l: "loadDatabase criou s = (db, al, s1)"
    by (cases "loadDatabase criou s") auto
  from loadDatabase_visivel [OF l] salvar_mutado_visivel(1) [OF l] l show ?thesis
    by (simp add: createAmbiente_def Let_def split: option.splits)
qed

text \<open>
  A store whose file holds one environment, as \<open>createAmbiente\<close> leaves a store that had
  no file yet.
\<close>

definition db_qa :: "(string \<Rightarrow> string) \<Rightarrow> database" where
  "db_qa H = visivel (snd (createAmbiente H 1 True True ''QA'' 5005 ''ana'' ''segredo'' [''v8''] None
                             \<lparr> arquivo = Ausente, esquema = DB_SCHEMA \<rparr>))"

lemma db_qa_eq:
  "db_qa H = \<lparr> perfis = [], logins = [], ambientes =
     [\<lparr> id_a = ''ambiente-1'', nome = ''QA'', porta = 5005, path = ''rota-5005.producao'',
        username = ''ana'', passwordHash = H ''segredo'', bancosPermitidos = [''v8''],
        pipelineKentro = None, criadoEm = 1, atualizadoEm = 1, ativo = True \<rparr>] \<rparr>"
  by (simp add: db_qa_def createAmbiente_visivel DB_SCHEMA_def novoAmbiente_def
      decimal.simps digito_def hashPassword_def)

definition s_qa :: "(string \<Rightarrow> string) \<Rightarrow> armazenamento" where
  "s_qa H = \<lparr> arquivo = Conteudo (db_qa H), esquema = DB_SCHEMA \<rparr>"

lemma visivel_s_qa [simp]: "visivel (s_qa H) = db_qa H"
  by (simp add: s_qa_def)

lemma arquivo_s_qa [simp]: "arquivo (s_qa H) = Conteudo (db_qa H)"
  by (simp add: s_qa_def)




text \<open>A second environment, provisioned with the password of the first.\<close>

definition s_qa_qb :: "(string \<Rightarrow> string) \<Rightarrow> armazenamento" where
  "s_qa_qb H = snd (createAmbiente H 2 True True ''QB'' 5006 ''bia'' ''segredo'' [] None (s_qa H))"

lemma visivel_s_qa_qb:
  "visivel (s_qa_qb H) = \<lparr> perfis = [], logins = [], ambientes =
     [\<lparr> id_a = ''ambiente-1'', nome = ''QA'', porta = 5005, path = ''rota-5005.producao'',
        username = ''ana'', passwordHash = H ''segredo'', bancosPermitidos = [''v8''],
        pipelineKentro = None, criadoEm = 1, atualizadoEm = 1, ativo = True \<rparr>,
      \<lparr> id_a = ''ambiente-2'', nome = ''QB'', porta = 5006, path = ''rota-5006.producao'',
        username = ''bia'', passwordHash = H ''segredo'', bancosPermitidos = [],
        pipelineKentro = None, criadoEm = 2, atualizadoEm = 2, ativo = True \<rparr>] \<rparr>"
  by (simp add: s_qa_qb_def createAmbiente_visivel db_qa_eq novoAmbiente_def
      decimal.simps digito_def hashPassword_def)

text \<open>
  Claim C7, as stated, fails: the claim has two environments provisioned with the same
  password receive different stored hashes. Whatever the digest function is, the two
  environments of \<open>s_qa_qb\<close> hold the same hash.
\<close>

theorem createAmbiente_same_password_same_hash:
  "\<forall>H. \<not> distinct (map passwordHash (ambientes (visivel (s_qa_qb H))))"
  by (simp add: visivel_s_qa_qb)

text \<open>
  Claim C7, amended. The stored hash is the digest of the password alone: no salt enters
  it, so two successful calls of \<open>createAmbiente\<close> with one password, on any stores and with
  any other arguments, store the same hash. A call has stored its record when its write
  succeeded or, the write having failed, the store no longer holds what it held.
\<close>

theorem createAmbiente_hash_unsalted:
  "createAmbiente H t1 c1 w1 n1 p1 u1 pw b1 pl1 s1 = (Inr v1, s1') \<Longrightarrow>
   createAmbiente H t2 c2 w2 n2 p2 u2 pw b2 pl2 s2 = (Inr v2, s2') \<Longrightarrow>
   w1 \<or> visivel s1' \<noteq> visivel s1 \<Longrightarrow>
   w2 \<or> visivel s2' \<noteq> visivel s2 \<Longrightarrow>
   passwordHash (last (ambientes (visivel s1'))) = hashPassword H pw
   \<and> passwordHash (last (ambientes (visivel s2'))) = passwordHash (last (ambientes (visivel s1')))"
proof -
  assume 1: "createAmbiente H t1 c1 w1 n1 p1 u1 pw b1 pl1 s1 = (Inr v1, s1')"
    and 2: "createAmbiente H t2 c2 w2 n2 p2 u2 pw b2 pl2 s2 = (Inr v2, s2')"
    and a1: "w1 \<or> visivel s1' \<noteq> visivel s1" and a2: "w2 \<or> visivel s2' \<noteq> visivel s2"
  have h: "passwordHash (last (ambientes (visivel s'))) = hashPassword H pw"
    if c: "createAmbiente H t c w n p u pw b pl s = (Inr v, s')"
      and a: "w \<or> visivel s' \<noteq> visivel s" for t c w n p u b pl s v s'
  proof -
    from c have f: "fst (createAmbiente H t c w n p u pw b pl s) = Inr v"
      and v: "visivel s' = visivel (snd (createAmbiente H t c w n p u pw b pl s))"
      by simp_all
    from f have nc: "find (\<lambda>a. porta a = p) (ambientes (visivel s)) = None
                   \<and> find (\<lambda>a. nome a = n) (ambientes (visivel s)) = None"
      unfolding createAmbiente_fst by (auto split: option.splits)
    from v a nc show ?thesis
      unfolding createAmbiente_visivel
      by (cases "mutacao_fica c w s") (auto simp: novoAmbiente_def)
  qed
  from h [OF 1 a1] h [OF 2 a2] show ?thesis by simp
qed

theorem createAmbiente_hash_unsalted_witness:
  "\<forall>H. passwordHash (last (ambientes (visivel (s_qa H)))) = hashPassword H ''segredo''
     \<and> passwordHash (last (ambientes (visivel (s_qa_qb H))))
         = passwordHash (last (ambientes (visivel (s_qa H))))"
proof (intro allI)
  fix H :: "string \<Rightarrow> string"
  let ?s0 = "\<lparr> arquivo = Ausente, esquema = DB_SCHEMA \<rparr>"
  have 1: "createAmbiente H 1 True True ''QA'' 5005 ''ana'' ''segredo'' [''v8''] None ?s0
      = (Inr \<lparr> id_c = ''ambiente-1'', nome_c = ''QA'', porta_c = 5005,
               path_c = ''rota-5005.producao'', bancosPermitidos_c = [''v8''] \<rparr>,
         \<lparr> arquivo = Conteudo (db_qa H), esquema = (db_qa H) \<rparr>)"
    by (simp add: db_qa_eq createAmbiente_def loadDatabase_def salvar_mutado_def Let_def
        saveDatabase_def DB_SCHEMA_def novoAmbiente_def decimal.simps digito_def hashPassword_def)
  have 2: "createAmbiente H 2 True True ''QB'' 5006 ''bia'' ''segredo'' [] None (s_qa H)
      = (Inr \<lparr> id_c = ''ambiente-2'', nome_c = ''QB'', porta_c = 5006,
               path_c = ''rota-5006.producao'', bancosPermitidos_c = [] \<rparr>, s_qa_qb H)"
    by (simp add: s_qa_qb_def s_qa_def db_qa_eq createAmbiente_def loadDatabase_def Let_def
        salvar_mutado_def saveDatabase_def novoAmbiente_def decimal.simps digito_def)
  have "passwordHash (last (ambientes (db_qa H))) = hashPassword H ''segredo''
     \<and> passwordHash (last (ambientes (visivel (s_qa_qb H))))
         = passwordHash (last (ambientes (db_qa H)))"
    using createAmbiente_hash_unsalted [OF 1 2] by simp
  then show "passwordHash (last (ambientes (visivel (s_qa H)))) = hashPassword H ''segredo''
     \<and> passwordHash (last (ambientes (visivel (s_qa_qb H))))
         = passwordHash (last (ambientes (visivel (s_qa H))))"
    by simp
qed

subsection \<open>The order of the checks of \<open>authenticateLogin\<close>\<close>

text \<open>
  A login \<open>Ana\<close> with the right password, a profile and an inactive environment; the
  profile's flag is the parameter.
\<close>

definition db_login :: "(string \<Rightarrow> string) \<Rightarrow> bool \<Rightarrow> database" where
  "db_login H perfil_ativo =
     \<lparr> perfis = [\<lparr> id_p = ''perfil-1'', nome_p = ''Operador'',
                   permissoes = [(''clt_consulta'', True)], ativo_p = perfil_ativo \<rparr>],
       logins = [\<lparr> id_l = ''login-1'', username_l = ''Ana'', passwordHash_l = H ''senha'',
                   ambienteId = ''ambiente-1'', perfilId = Some ''perfil-1'', ativo_l = True \<rparr>],
       ambientes = map (\<lambda>a. a\<lparr>ativo := False\<rparr>) (ambientes (db_qa H)) \<rparr>"

lemma lower_ana: "toLowerCase (trim '' ana '') = ''ana''" "toLowerCase ''Ana'' = ''ana''"
  by code_simp+

lemma buscar_login_ana:
  "buscar_login (db_login H b) '' ana '' = Some (hd (logins (db_login H b)))"
  by (simp add: buscar_login_def db_login_def lower_ana)

text \<open>
  Claim C4, as stated, fails: the login is active, the password is right and the
  environment exists and is inactive, but the profile is inactive too and is checked
  first, so the error is \<open>PERFIL_INACTIVE\<close>.
\<close>

theorem authenticateLogin_perfil_inativo_primeiro:
  "\<forall>H. authenticateLogin H (db_login H False) '' ana '' ''senha'' = Inl PERFIL_INACTIVE"
  by (simp add: authenticateLogin_def buscar_login_ana)
     (simp add: db_login_def db_qa_eq verifyPassword_def hashPassword_def perfil_do_login_def)

text \<open>
  Claim C4, amended. For the login the user name selects, when it is active, the password
  is right and its environment exists and is inactive: authentication fails with
  \<open>AMBIENTE_INACTIVE\<close> unless the login's profile is found and inactive, in which case it
  fails with \<open>PERFIL_INACTIVE\<close>. \<open>AMBIENTE_INACTIVE\<close> is none of the other five error codes.
\<close>

theorem authenticateLogin_ambiente_inativo:
  "buscar_login db user = Some l \<Longrightarrow> ativo_l l \<Longrightarrow>
   verifyPassword H pw (passwordHash_l l) \<Longrightarrow>
   find (\<lambda>a. id_a a = ambienteId l) (ambientes db) = Some a \<Longrightarrow> \<not> ativo a \<Longrightarrow>
   authenticateLogin H db user pw =
     (case perfil_do_login db l of
        None \<Rightarrow> Inl AMBIENTE_INACTIVE
      | Some p \<Rightarrow> if ativo_p p then Inl AMBIENTE_INACTIVE else Inl PERFIL_INACTIVE)
   \<and> AMBIENTE_INACTIVE \<notin> {USER_NOT_FOUND, USER_INACTIVE, INVALID_PASSWORD,
        AMBIENTE_NOT_FOUND, PERFIL_INACTIVE}"
  by (auto simp: authenticateLogin_def Let_def split: option.splits)

theorem authenticateLogin_ambiente_inativo_witness:
  "\<forall>H. authenticateLogin H (db_login H True) '' ana '' ''senha'' = Inl AMBIENTE_INACTIVE"
proof (intro allI)
  fix H :: "string \<Rightarrow> string"
  let ?db = "db_login H True"
  let ?l = "hd (logins ?db)"
  have a: "ativo_l ?l" by (simp add: db_login_def)
  have b: "verifyPassword H ''senha'' (passwordHash_l ?l)"
    by (simp add: db_login_def verifyPassword_def hashPassword_def)
  have c: "find (\<lambda>a. id_a a = ambienteId ?l) (ambientes ?db) = Some (hd (ambientes ?db))"
    by (simp add: db_login_def db_qa_eq)
  have d: "\<not> ativo (hd (ambientes ?db))" by (simp add: db_login_def db_qa_eq)
  have e: "perfil_do_login ?db ?l = Some (hd (perfis ?db))" "ativo_p (hd (perfis ?db))"
    by (simp_all add: db_login_def perfil_do_login_def)
  show "authenticateLogin H ?db '' ana '' ''senha'' = Inl AMBIENTE_INACTIVE"
    using authenticateLogin_ambiente_inativo [OF buscar_login_ana a b c d] e by simp
qed

subsection \<open>Reconciliation keeps a manual choice of integrations\<close>

lemma length_atualizar_primeiro [simp]:
  "length (atualizar_primeiro P f xs) = length xs"
  by (induction xs) auto

lemma nth_atualizar_primeiro:
  "i < length xs \<Longrightarrow>
   atualizar_primeiro P f xs ! i = xs ! i \<or> atualizar_primeiro P f xs ! i = f (xs ! i)"
proof (induction xs arbitrary: i)
  case Nil
  then show ?case by simp
next
  case (Cons x xs)
  then show ?case by (cases i) auto
qed

lemma map_atualizar_primeiro:
  "(\<And>x. g (f x) = g x) \<Longrightarrow> map g (atualizar_primeiro P f xs) = map g xs"
  by (induction xs) auto

text \<open>
  The relation every step of the reconciliation keeps between the list of environments before
  and after: no record is dropped or moved, identifier and port stay, and a non-empty list of
  permitted integrations stays.
\<close>

definition mantem_bancos :: "ambiente list \<Rightarrow> ambiente list \<Rightarrow> bool" where
  "mantem_bancos xs ys =
     (length xs \<le> length ys \<and>
      (\<forall>i<length xs. id_a (ys ! i) = id_a (xs ! i) \<and> porta (ys ! i) = porta (xs ! i) \<and>
         (bancosPermitidos (xs ! i) \<noteq> [] \<longrightarrow> bancosPermitidos (ys ! i) = bancosPermitidos (xs ! i))))"

lemma mantem_bancos_refl: "mantem_bancos xs xs"
  by (simp add: mantem_bancos_def)

lemma mantem_bancos_trans:
  "mantem_bancos xs ys \<Longrightarrow> mantem_bancos ys zs \<Longrightarrow> mantem_bancos xs zs"
  unfolding mantem_bancos_def
  by (metis (no_types, lifting) le_trans less_le_trans)

lemma mantem_bancos_registrar:
  "mantem_bancos ambs (fst (registrar_detectado H agora d (ambs, res)))"
proof (cases "porta_d d = 7000")
  case True
  then show ?thesis by (simp add: registrar_detectado_def mantem_bancos_refl)
next
  case False
  show ?thesis
  proof (cases "find (\<lambda>a. porta a = porta_d d) ambs")
    case None
    with False show ?thesis
      by (simp add: registrar_detectado_def mantem_bancos_def Let_def nth_append)
  next
    case (Some ex)
    let ?f = "\<lambda>ex. ex\<lparr> path := path_d d,
                 bancosPermitidos := (if bancosPermitidos ex = [] then bancosPermitidos_d d
                                      else bancosPermitidos ex),
                 atualizadoEm := agora, ativo := True \<rparr>"
    have "mantem_bancos ambs (atualizar_primeiro (\<lambda>a. porta a = porta_d d) ?f ambs)"
      unfolding mantem_bancos_def
    proof (intro conjI allI impI)
      show "length ambs \<le> length (atualizar_primeiro (\<lambda>a. porta a = porta_d d) ?f ambs)"
        by simp
    next
      fix i assume i: "i < length ambs"
      from nth_atualizar_primeiro [OF i, of "\<lambda>a. porta a = porta_d d" ?f]
      show "id_a (atualizar_primeiro (\<lambda>a. porta a = porta_d d) ?f ambs ! i) = id_a (ambs ! i)"
        by auto
      from nth_atualizar_primeiro [OF i, of "\<lambda>a. porta a = porta_d d" ?f]
      show "porta (atualizar_primeiro (\<lambda>a. porta a = porta_d d) ?f ambs ! i) = porta (ambs ! i)"
        by auto
      assume "bancosPermitidos (ambs ! i) \<noteq> []"
      with nth_atualizar_primeiro [OF i, of "\<lambda>a. porta a = porta_d d" ?f]
      show "bancosPermitidos (atualizar_primeiro (\<lambda>a. porta a = porta_d d) ?f ambs ! i)
            = bancosPermitidos (ambs ! i)"
        by auto
    qed
    with False Some show ?thesis
      by (simp add: registrar_detectado_def Let_def)
  qed
qed

lemma mantem_bancos_fold:
  "mantem_bancos (fst st) (fst (fold (registrar_detectado H agora) ds st))"
proof (induction ds arbitrary: st)
  case Nil
  then show ?case by (simp add: mantem_bancos_refl)
next
  case (Cons d ds)
  have "mantem_bancos (fst st) (fst (registrar_detectado H agora d st))"
    using mantem_bancos_registrar [of "fst st" H agora d "snd st"] by simp
  with Cons [of "registrar_detectado H agora d st"] show ?case
    by (auto intro: mantem_bancos_trans)
qed

lemma mantem_bancos_marcar:
  "mantem_bancos (fst st) (fst (marcar_inativos ds st))"
  by (cases st) (simp add: marcar_inativos_def mantem_bancos_def)

lemma mantem_bancos_reconciliar:
  "mantem_bancos ambs (fst (reconciliar H agora ds ambs))"
proof -
  let ?st0 = "(ambs, \<lparr> criados = [], atualizados = [], existentes = [] \<rparr>)"
  let ?st1 = "fold (registrar_detectado H agora) ds ?st0"
  have "mantem_bancos ambs (fst ?st1)"
    using mantem_bancos_fold [of ?st0 H agora ds] by simp
  moreover have "mantem_bancos (fst ?st1) (fst (marcar_inativos ds ?st1))"
    by (rule mantem_bancos_marcar)
  ultimately show ?thesis
    by (auto simp: reconciliar_def intro: mantem_bancos_trans)
qed

text \<open>
  What the next \<open>loadDatabase\<close> returns after the reconciliation: the two loops have run on
  the list of environments, or the store holds what it held.
\<close>

lemma sincronizar_visivel:
  "visivel (snd (sincronizarAmbientesExistentes H agora base criou saved s)) =
     (if mutacao_fica criou saved s
      then (visivel s)\<lparr>ambientes :=
             fst (reconciliar H agora (detectarAmbientesExistentes base) (ambientes (visivel s)))\<rparr>
      else visivel s)"
proof -
  obtain db al s1 where l: "loadDatabase criou s = (db, al, s1)"
    by (cases "loadDatabase criou s") auto
  from loadDatabase_visivel [OF l] salvar_mutado_visivel(1) [OF l] l show ?thesis
    by (simp add: sincronizarAmbientesExistentes_def Let_def)
qed



text \<open>
  A base directory: two environments, the administration system's own directory and a file.
  The directory of port 5005 holds two integrations.
\<close>

definition base_ex :: "entrada_base list option" where
  "base_ex = Some [
     \<lparr> item = ''rota-6000.producao'', eh_diretorio = Some True, conteudo = [''V8'', ''.env''] \<rparr>,
     \<lparr> item = ''rota-5005.producao'', eh_diretorio = Some True,
       conteudo = [''hubcredito'', pasta_presencabank] \<rparr>,
     \<lparr> item = ''rota-7000.producao'', eh_diretorio = Some True, conteudo = [] \<rparr>,
     \<lparr> item = ''notas.txt'', eh_diretorio = Some False, conteudo = [] \<rparr>]"

lemma detectar_base_ex:
  "detectarAmbientesExistentes base_ex =
     [\<lparr> nome_d = ''Ambiente 5005'', porta_d = 5005, path_d = ''rota-5005.producao'',
        pathCompleto = ''/opt/lunas-digital/rota-5005.producao'',
        bancosPermitidos_d = [''presencabank'', ''hubcredito''], existe = True, temEnv = False \<rparr>,
      \<lparr> nome_d = ''Ambiente 6000'', porta_d = 6000, path_d = ''rota-6000.producao'',
        pathCompleto = ''/opt/lunas-digital/rota-6000.producao'',
        bancosPermitidos_d = [''v8''], existe = True, temEnv = True \<rparr>]"
  by (simp add: detectarAmbientesExistentes_def base_ex_def List.map_filter_simps
      detectar_item_def startsWith_def endsWith_def match_aqui_def is_digit_def parseInt_def
      valor_digito_def Let_def decimal.simps digito_def BASE_PATH_def bancosPossiveis_def
      pasta_presencabank_def id_da_pasta_def)


subsection \<open>Reconciliation reactivates what is on disk\<close>

text \<open>The detector never reports port 7000, so the first loop skips none of its results.\<close>

lemma detectar_item_porta: "detectar_item e = Some d \<Longrightarrow> porta_d d \<noteq> 7000"
  by (auto simp: detectar_item_def Let_def split: if_splits option.splits bool.splits)

lemma detectados_nao_7000:
  "d \<in> set (detectarAmbientesExistentes base) \<Longrightarrow> porta_d d \<noteq> 7000"
  by (auto simp: detectarAmbientesExistentes_def List.map_filter_def
      dest: detectar_item_porta split: option.splits)

text \<open>
  The invariant of the first loop: ports stay pairwise different, and every record whose port
  has been processed is active.
\<close>

definition ativos_no_disco :: "nat set \<Rightarrow> ambiente list \<Rightarrow> bool" where
  "ativos_no_disco ps ambs =
     (distinct (map porta ambs) \<and> (\<forall>a\<in>set ambs. porta a \<in> ps \<longrightarrow> ativo a))"

lemma set_atualizar_primeiro:
  "a \<in> set (atualizar_primeiro P f xs) \<Longrightarrow> a \<in> set xs \<or> (\<exists>x\<in>set xs. P x \<and> a = f x)"
  by (induction xs) (auto split: if_splits)

lemma atualizar_primeiro_unico:
  "distinct (map g xs) \<Longrightarrow> (\<And>x. g (f x) = g x) \<Longrightarrow>
   a \<in> set (atualizar_primeiro (\<lambda>x. g x = p) f xs) \<Longrightarrow> g a = p \<Longrightarrow> \<exists>x\<in>set xs. a = f x"
proof (induction xs)
  case Nil
  then show ?case by simp
next
  case (Cons x xs)
  show ?case
  proof (cases "g x = p")
    case True
    with Cons.prems show ?thesis by (auto simp: image_iff)
  next
    case False
    with Cons show ?thesis by auto
  qed
qed

lemma ativos_no_disco_registrar:
  assumes inv: "ativos_no_disco ps ambs" and d: "porta_d d \<noteq> 7000"
  shows "ativos_no_disco (insert (porta_d d) ps) (fst (registrar_detectado H agora d (ambs, res)))"
proof (cases "find (\<lambda>a. porta a = porta_d d) ambs")
  case None
  then have "\<forall>a\<in>set ambs. porta a \<noteq> porta_d d"
    by (simp add: find_None_set)
  with inv d None show ?thesis
    by (auto simp: registrar_detectado_def ativos_no_disco_def Let_def)
next
  case (Some ex)
  let ?f = "\<lambda>ex. ex\<lparr> path := path_d d,
               bancosPermitidos := (if bancosPermitidos ex = [] then bancosPermitidos_d d
                                    else bancosPermitidos ex),
               atualizadoEm := agora, ativo := True \<rparr>"
  let ?ys = "atualizar_primeiro (\<lambda>a. porta a = porta_d d) ?f ambs"
  have portas: "map porta ?ys = map porta ambs"
    by (rule map_atualizar_primeiro) simp
  have "ativo a" if a: "a \<in> set ?ys" and p: "porta a \<in> insert (porta_d d) ps" for a
  proof (cases "porta a = porta_d d")
    case True
    from inv have "distinct (map porta ambs)" by (simp add: ativos_no_disco_def)
    from atualizar_primeiro_unico [where g=porta and f="?f", OF this _ a True]
    obtain x where "a = ?f x" by auto
    then show ?thesis by simp
  next
    case False
    with p have ps: "porta a \<in> ps" by simp
    from set_atualizar_primeiro [OF a] show ?thesis
    proof
      assume "a \<in> set ambs"
      with inv ps show ?thesis by (simp add: ativos_no_disco_def)
    next
      assume "\<exists>x\<in>set ambs. porta x = porta_d d \<and> a = ?f x"
      then show ?thesis by auto
    qed
  qed
  with inv portas have "ativos_no_disco (insert (porta_d d) ps) ?ys"
    by (simp add: ativos_no_disco_def)
  with d Some show ?thesis
    by (simp add: registrar_detectado_def Let_def)
qed

lemma ativos_no_disco_fold:
  "ativos_no_disco ps (fst st) \<Longrightarrow> \<forall>d\<in>set ds. porta_d d \<noteq> 7000 \<Longrightarrow>
   ativos_no_disco (ps \<union> porta_d ` set ds) (fst (fold (registrar_detectado H agora) ds st))"
proof (induction ds arbitrary: st ps)
  case Nil
  then show ?case by simp
next
  case (Cons d ds)
  from Cons.prems have "ativos_no_disco (insert (porta_d d) ps)
      (fst (registrar_detectado H agora d st))"
    using ativos_no_disco_registrar [of ps "fst st" d H agora "snd st"] by simp
  from Cons.IH [OF this] Cons.prems(2) show ?case by simp
qed

lemma fora_do_disco_iff:
  "fora_do_disco ds a \<longleftrightarrow> porta a \<notin> porta_d ` set ds \<and> porta a \<noteq> 4000"
  by (auto simp: fora_do_disco_def find_None_set image_iff)

lemma marcar_inativos_portas:
  "map porta (fst (marcar_inativos ds st)) = map porta (fst st)"
  by (cases st) (simp add: marcar_inativos_def)

lemma ativos_no_disco_reconciliar:
  assumes "distinct (map porta ambs)" and "\<forall>d\<in>set ds. porta_d d \<noteq> 7000"
  shows "ativos_no_disco (porta_d ` set ds) (fst (reconciliar H agora ds ambs))"
proof -
  let ?st0 = "(ambs, \<lparr> criados = [], atualizados = [], existentes = [] \<rparr>)"
  let ?st1 = "fold (registrar_detectado H agora) ds ?st0"
  from assms(1) have "ativos_no_disco {} (fst ?st0)"
    by (simp add: ativos_no_disco_def)
  from ativos_no_disco_fold [OF this assms(2), of H agora]
  have inv: "ativos_no_disco (porta_d ` set ds) (fst ?st1)"
    by simp
  obtain ambs1 res1 where st1: "?st1 = (ambs1, res1)" by (cases ?st1)
  with inv have inv1: "ativos_no_disco (porta_d ` set ds) ambs1" by simp
  have amb': "fst (reconciliar H agora ds ambs)
      = map (\<lambda>a. if fora_do_disco ds a then a\<lparr>ativo := False\<rparr> else a) ambs1"
    using st1 by (simp add: reconciliar_def marcar_inativos_def)
  have portas: "map porta (map (\<lambda>a. if fora_do_disco ds a then a\<lparr>ativo := False\<rparr> else a) ambs1)
      = map porta ambs1"
    by (induction ambs1) auto
  from inv1 show ?thesis
    unfolding amb' ativos_no_disco_def portas
    by (auto simp: fora_do_disco_iff)
qed

text \<open>
  Two stores on which the claim fails. In \<open>s_dup\<close> two records hold port 5005, both
  deactivated. \<open>s_inativo\<close> is \<open>s_qa\<close> after an operator has deactivated its environment.
\<close>

definition s_dup :: "(string \<Rightarrow> string) \<Rightarrow> armazenamento" where
  "s_dup H =
     \<lparr> arquivo = Conteudo ((db_qa H)\<lparr>ambientes :=
         map (\<lambda>a. a\<lparr>ativo := False\<rparr>) (ambientes (db_qa H))
         @ map (\<lambda>a. a\<lparr>id_a := ''ambiente-2'', nome := ''QA2'', ativo := False\<rparr>)
             (ambientes (db_qa H))\<rparr>),
       esquema = DB_SCHEMA \<rparr>"

definition s_inativo :: "(string \<Rightarrow> string) \<Rightarrow> armazenamento" where
  "s_inativo H =
     \<lparr> arquivo = Conteudo ((db_qa H)\<lparr>ambientes :=
         map (\<lambda>a. a\<lparr>ativo := False\<rparr>) (ambientes (db_qa H))\<rparr>),
       esquema = DB_SCHEMA \<rparr>"

text \<open>
  Claim C10, as stated, fails. The first loop looks a detected port up with \<open>find\<close>, so of
  two records with one port only the first is reactivated: after the reconciliation of
  \<open>s_dup\<close>, whose write succeeds, the second record of port 5005 is still inactive, although
  the detector found port 5005. And the function does not look at what \<open>saveDatabase\<close>
  returned: when the write fails, the record of \<open>s_inativo\<close> is still inactive in the store.
\<close>

theorem sincronizar_leaves_inactive:
  "\<forall>H. 5005 \<in> porta_d ` set (detectarAmbientesExistentes base_ex)
     \<and> map (\<lambda>a. (id_a a, porta a, ativo a))
          (ambientes (visivel (snd (sincronizarAmbientesExistentes H 9 base_ex True True (s_dup H)))))
        = [(''ambiente-1'', 5005, True), (''ambiente-2'', 5005, False),
           (''ambiente-9-6000'', 6000, True)]
     \<and> map (\<lambda>a. (id_a a, porta a, ativo a))
          (ambientes (visivel (snd (sincronizarAmbientesExistentes H 9 base_ex True False (s_inativo H)))))
        = [(''ambiente-1'', 5005, False)]"
  by (simp add: sincronizar_visivel s_dup_def s_inativo_def reconciliar_def detectar_base_ex
      db_qa_eq registrar_detectado_def marcar_inativos_def fora_do_disco_def Let_def
      novoAmbiente_def decimal.simps digito_def)

text \<open>
  Claim C10, amended. On a store whose environments have pairwise different ports (what
  \<open>createAmbiente\<close> and the reconciliation itself maintain), when the write succeeds: a
  record whose port is among the ports the detector found is, after
  \<open>sincronizarAmbientesExistentes\<close>, still at its place with its identifier and its port,
  and it is active, whatever its flag was before. The ports are still pairwise different,
  and every record of the store after the reconciliation whose port the detector found is
  active, the records the reconciliation created included.
\<close>

theorem sincronizar_reactivates:
  "distinct (map porta (ambientes (visivel s))) \<Longrightarrow> saved \<Longrightarrow>
   i < length (ambientes (visivel s)) \<Longrightarrow>
   porta (ambientes (visivel s) ! i) \<in> porta_d ` set (detectarAmbientesExistentes base) \<Longrightarrow>
   (let db = visivel s;
        db' = visivel (snd (sincronizarAmbientesExistentes H agora base criou saved s)) in
      i < length (ambientes db')
      \<and> id_a (ambientes db' ! i) = id_a (ambientes db ! i)
      \<and> porta (ambientes db' ! i) = porta (ambientes db ! i)
      \<and> ativo (ambientes db' ! i)
      \<and> distinct (map porta (ambientes db'))
      \<and> (\<forall>a\<in>set (ambientes db').
            porta a \<in> porta_d ` set (detectarAmbientesExistentes base) \<longrightarrow> ativo a))"
proof -
  assume dist: "distinct (map porta (ambientes (visivel s)))" and saved: saved
    and i: "i < length (ambientes (visivel s))"
    and p: "porta (ambientes (visivel s) ! i) \<in> porta_d ` set (detectarAmbientesExistentes base)"
  let ?ds = "detectarAmbientesExistentes base"
  let ?db = "visivel s"
  let ?r = "fst (reconciliar H agora ?ds (ambientes ?db))"
  let ?db' = "visivel (snd (sincronizarAmbientesExistentes H agora base criou saved s))"
  from saved have amb': "ambientes ?db' = ?r"
    by (simp add: sincronizar_visivel)
  have m: "mantem_bancos (ambientes ?db) ?r"
    by (rule mantem_bancos_reconciliar)
  have a: "ativos_no_disco (porta_d ` set ?ds) ?r"
    using dist by (rule ativos_no_disco_reconciliar) (simp add: detectados_nao_7000)
  from m i have lt: "i < length ?r" and ida: "id_a (?r ! i) = id_a (ambientes ?db ! i)"
    and pa: "porta (?r ! i) = porta (ambientes ?db ! i)"
    by (auto simp: mantem_bancos_def)
  from lt have "?r ! i \<in> set ?r" by simp
  with a p pa have at: "ativo (?r ! i)"
    by (simp add: ativos_no_disco_def)
  from a have d': "distinct (map porta ?r)"
    and al: "\<forall>a\<in>set ?r. porta a \<in> porta_d ` set ?ds \<longrightarrow> ativo a"
    by (simp_all add: ativos_no_disco_def)
  from lt ida pa at d' al show ?thesis
    unfolding Let_def amb' by simp
qed

theorem sincronizar_reactivates_witness:
  "\<forall>H. \<not> ativo (ambientes (visivel (s_inativo H)) ! 0)
     \<and> porta (ambientes (visivel (s_inativo H)) ! 0) = 5005
     \<and> id_a (ambientes (visivel (s_inativo H)) ! 0) = ''ambiente-1''
     \<and> id_a (ambientes (visivel (snd
          (sincronizarAmbientesExistentes H 9 base_ex True True (s_inativo H)))) ! 0) = ''ambiente-1''
     \<and> porta (ambientes (visivel (snd
          (sincronizarAmbientesExistentes H 9 base_ex True True (s_inativo H)))) ! 0) = 5005
     \<and> ativo (ambientes (visivel (snd
          (sincronizarAmbientesExistentes H 9 base_ex True True (s_inativo H)))) ! 0)"
proof (intro allI)
  fix H :: "string \<Rightarrow> string"
  let ?db' = "visivel (snd (sincronizarAmbientesExistentes H 9 base_ex True True (s_inativo H)))"
  have d: "distinct (map porta (ambientes (visivel (s_inativo H))))"
    by (simp add: s_inativo_def db_qa_eq)
  have i: "0 < length (ambientes (visivel (s_inativo H)))"
    by (simp add: s_inativo_def db_qa_eq)
  have det: "porta (ambientes (visivel (s_inativo H)) ! 0)
               \<in> porta_d ` set (detectarAmbientesExistentes base_ex)"
    by (simp add: detectar_base_ex s_inativo_def db_qa_eq)
  have v: "visivel (s_inativo H) = (db_qa H)\<lparr>ambientes :=
         map (\<lambda>a. a\<lparr>ativo := False\<rparr>) (ambientes (db_qa H))\<rparr>"
    by (simp add: s_inativo_def)
  show "\<not> ativo (ambientes (visivel (s_inativo H)) ! 0)
     \<and> porta (ambientes (visivel (s_inativo H)) ! 0) = 5005
     \<and> id_a (ambientes (visivel (s_inativo H)) ! 0) = ''ambiente-1''
     \<and> id_a (ambientes ?db' ! 0) = ''ambiente-1''
     \<and> porta (ambientes ?db' ! 0) = 5005
     \<and> ativo (ambientes ?db' ! 0)"
    using sincronizar_reactivates [OF d TrueI i det, of H 9 True]
    by (simp add: Let_def v db_qa_eq)
qed

subsection \<open>Deleting an environment\<close>

lemma findIndex_Some:
  "findIndex P xs = Some i \<Longrightarrow> i < length xs \<and> P (xs ! i) \<and> (\<forall>j<i. \<not> P (xs ! j))"
proof (induction xs arbitrary: i)
  case Nil
  then show ?case by simp
next
  case (Cons x xs)
  show ?case
  proof (cases "P x")
    case True
    with Cons.prems show ?thesis by simp
  next
    case False
    with Cons.prems obtain k where k: "findIndex P xs = Some k" "i = Suc k"
      by auto
    from Cons.IH [OF k(1)] False k(2) show ?thesis
      by (auto simp: less_Suc_eq_0_disj)
  qed
qed


lemma findIndex_None: "findIndex P xs = None \<longleftrightarrow> (\<forall>x\<in>set xs. \<not> P x)"
  by (induction xs) auto



lemma deleteAmbiente_visivel:
  "visivel (snd (deleteAmbiente criou saved pasta aid s)) =
     (case findIndex (\<lambda>a. id_a a = aid) (ambientes (visivel s)) of
        None \<Rightarrow> visivel s
      | Some i \<Rightarrow>
          if mutacao_fica criou saved s
          then (visivel s)\<lparr>ambientes :=
                 take i (ambientes (visivel s)) @ drop (Suc i) (ambientes (visivel s))\<rparr>
          else visivel s)"
proof -
  obtain db al s1 where l: "loadDatabase criou s = (db, al, s1)"
    by (cases "loadDatabase criou s") auto
  from loadDatabase_visivel [OF l] salvar_mutado_visivel [OF l] l show ?thesis
    by (simp add: deleteAmbiente_def Let_def split: option.splits remocao_pasta.splits)
qed





section \<open>Properties of the credential codec\<close>

text \<open>Splitting at line feeds and joining with line feeds are inverse on lists of lines.\<close>

lemma split_on_nonempty [simp]: "split_on d s \<noteq> []"
  by (induction s) (auto split: list.splits)

lemma split_on_no_sep: "l \<in> set (split_on d s) \<Longrightarrow> d \<notin> set l"
proof (induction s arbitrary: l)
  case Nil
  then show ?case by simp
next
  case (Cons c cs)
  then show ?case
    by (cases "split_on d cs") (auto split: if_splits)
qed

lemma split_on_single: "d \<notin> set l \<Longrightarrow> split_on d l = [l]"
  by (induction l) auto

lemma split_on_append: "d \<notin> set l \<Longrightarrow> split_on d (l @ d # r) = l # split_on d r"
  by (induction l) auto

lemma split_join:
  "ls \<noteq> [] \<Longrightarrow> \<forall>l\<in>set ls. CHR 0x0A \<notin> set l \<Longrightarrow> split_on (CHR 0x0A) (join_nl ls) = ls"
proof (induction ls rule: join_nl.induct)
  case 1
  then show ?case by simp
next
  case (2 l)
  then show ?case by (simp add: split_on_single)
next
  case (3 l v va)
  then show ?case by (simp add: split_on_append)
qed


text \<open>What \<open>gravar_linha\<close> does to the lines that match a predicate and to the others.\<close>

lemma filter_update_outside:
  "i < length xs \<Longrightarrow> \<not> Q (xs ! i) \<Longrightarrow> \<not> Q v \<Longrightarrow> filter Q (xs[i := v]) = filter Q xs"
proof (induction xs arbitrary: i)
  case Nil
  then show ?case by simp
next
  case (Cons x xs)
  then show ?case by (cases i) auto
qed

lemma filter_update_first:
  "i < length xs \<Longrightarrow> P (xs ! i) \<Longrightarrow> P v \<Longrightarrow> length (filter P xs) \<le> 1 \<Longrightarrow>
   filter P (xs[i := v]) = [v]"
proof (induction xs arbitrary: i)
  case Nil
  then show ?case by simp
next
  case (Cons x xs)
  show ?case
  proof (cases i)
    case 0
    with Cons.prems show ?thesis by (auto simp: filter_empty_conv)
  next
    case (Suc k)
    with Cons.prems have "\<not> P x"
      by (auto simp: filter_empty_conv split: if_splits)
    with Cons Suc show ?thesis by auto
  qed
qed

lemma gravar_linha_filter_same:
  "P nova \<Longrightarrow> length (filter P ls) \<le> 1 \<Longrightarrow> filter P (gravar_linha P nova ls) = [nova]"
proof (cases "findIndex P ls")
  case None
  assume nova: "P nova"
  from None have "\<forall>x\<in>set ls. \<not> P x" by (simp add: findIndex_None)
  with None nova show ?thesis
    by (simp add: gravar_linha_def filter_empty_conv)
next
  case (Some i)
  assume "P nova" "length (filter P ls) \<le> 1"
  with Some findIndex_Some [OF Some] show ?thesis
    by (simp add: gravar_linha_def filter_update_first)
qed

lemma gravar_linha_filter_other:
  "\<not> Q nova \<Longrightarrow> (\<And>l. P l \<Longrightarrow> \<not> Q l) \<Longrightarrow> filter Q (gravar_linha P nova ls) = filter Q ls"
proof (cases "findIndex P ls")
  case None
  assume "\<not> Q nova"
  with None show ?thesis by (simp add: gravar_linha_def)
next
  case (Some i)
  assume "\<not> Q nova" "\<And>l. P l \<Longrightarrow> \<not> Q l"
  with Some findIndex_Some [OF Some] show ?thesis
    by (simp add: gravar_linha_def filter_update_outside)
qed

lemma gravar_linha_set: "set (gravar_linha P nova ls) \<subseteq> insert nova (set ls)"
  by (auto simp: gravar_linha_def split: option.splits dest: set_update_subset_insert [THEN subsetD])

lemma gravar_linha_nonempty: "gravar_linha P nova ls \<noteq> []"
  by (cases ls) (auto simp: gravar_linha_def split: option.splits)

text \<open>Reading takes, for each field, the last line that matches.\<close>

lemma find_single: "filter P xs = [x] \<Longrightarrow> find P xs = Some x"
proof (induction xs)
  case Nil
  then show ?case by simp
next
  case (Cons y ys)
  then show ?case by (auto split: if_splits)
qed

lemma find_rev_single: "filter P xs = [x] \<Longrightarrow> find P (rev xs) = Some x"
  by (rule find_single) (simp add: rev_filter [symmetric])

lemma find_snoc:
  "find P (xs @ [x]) = (case find P xs of Some y \<Rightarrow> Some y | None \<Rightarrow> if P x then Some x else None)"
  by (induction xs) auto

lemma ler_login:
  "cred_login (fold (ler_linha c) ls acc) =
     (case find (linha_de_login c) (rev ls) of
        None \<Rightarrow> cred_login acc
      | Some l \<Rightarrow> Some (valor_da_linha l))"
  by (induction ls arbitrary: acc) (auto simp: find_snoc ler_linha_def Let_def split: option.splits)

lemma ler_senha:
  "cred_senha (fold (ler_linha c) ls acc) =
     (case find (linha_de_senha c) (rev ls) of
        None \<Rightarrow> cred_senha acc
      | Some l \<Rightarrow> Some (valor_da_linha l))"
  by (induction ls arbitrary: acc) (auto simp: find_snoc ler_linha_def Let_def split: option.splits)

lemma valor_da_linha_gravada:
  "CHR ''='' \<notin> set k \<Longrightarrow> CHR ''='' \<notin> set v \<Longrightarrow> trim v = v \<Longrightarrow>
   valor_da_linha (k @ CHR ''='' # v) = v"
  by (simp add: valor_da_linha_def split_on_append split_on_single)


lemma startsWith_both:
  "startsWith l a \<Longrightarrow> startsWith l b \<Longrightarrow>
   take (min (length a) (length b)) a = take (min (length a) (length b)) b"
proof -
  assume a: "startsWith l a" and b: "startsWith l b"
  let ?m = "min (length a) (length b)"
  have "take ?m a = take ?m (take (length a) l)"
    using a by (simp add: startsWith_def)
  also have "\<dots> = take ?m l" by simp
  also have "\<dots> = take ?m (take (length b) l)" by simp
  also have "\<dots> = take ?m b"
    using b by (simp add: startsWith_def)
  finally show ?thesis .
qed

text \<open>
  What the proof needs of a key mapping: the primary key names are not empty, hold no \<open>=\<close> and
  no line feed, and no line starts with both \<open>login=\<close> and \<open>senha=\<close>. The three mappings of
  the source have it.
\<close>

definition chaves_ok :: "campos \<Rightarrow> bool" where
  "chaves_ok c =
     (campo_login c \<noteq> [] \<and> campo_senha c \<noteq> []
      \<and> CHR ''='' \<notin> set (campo_login c) \<and> CHR ''='' \<notin> set (campo_senha c)
      \<and> CHR 0x0A \<notin> set (campo_login c) \<and> CHR 0x0A \<notin> set (campo_senha c)
      \<and> take (min (length (campo_login c @ ''='')) (length (campo_senha c @ ''='')))
             (campo_login c @ ''='')
          \<noteq> take (min (length (campo_login c @ ''='')) (length (campo_senha c @ ''='')))
             (campo_senha c @ ''=''))"

lemma mapeamento_chaves_ok: "mapeamentoCredenciais b = Some c \<Longrightarrow> chaves_ok c"
proof -
  assume m: "mapeamentoCredenciais b = Some c"
  consider "b = ''presencabank''" | "b \<noteq> ''presencabank''" "b = ''v8''"
    | "b \<noteq> ''presencabank''" "b \<noteq> ''v8''" "b = ''hubcredito''"
    | "b \<noteq> ''presencabank''" "b \<noteq> ''v8''" "b \<noteq> ''hubcredito''"
    by blast
  then show ?thesis
  proof cases
    case 1
    with m have "c = \<lparr> campo_login = ''PRECEN'' @ [CHR 0xC7] @ ''ABANK_LOGIN'',
               campo_senha = ''PRECEN'' @ [CHR 0xC7] @ ''ABANK_SENHA'',
               campo_usr = ''PRECEN'' @ [CHR 0xC7] @ ''ABANK_USR'',
               campo_pass = ''PRECEN'' @ [CHR 0xC7] @ ''ABANK_PASS'' \<rparr>"
      unfolding mapeamentoCredenciais_def by simp
    then show ?thesis by (simp add: chaves_ok_def)
  next
    case 2
    with m have "c = \<lparr> campo_login = ''V8_USERNAME'', campo_senha = ''V8_PASSWORD'',
               campo_usr = ''V8_USR'', campo_pass = ''V8_PASS'' \<rparr>"
      unfolding mapeamentoCredenciais_def by simp
    then show ?thesis by (simp add: chaves_ok_def)
  next
    case 3
    with m have "c = \<lparr> campo_login = ''HUBCREDITO_USR'', campo_senha = ''HUBCREDITO_PASS'',
               campo_usr = ''HUBCREDITO_USR'', campo_pass = ''HUBCREDITO_PASS'' \<rparr>"
      unfolding mapeamentoCredenciais_def by simp
    then show ?thesis by (simp add: chaves_ok_def)
  next
    case 4
    with m show ?thesis unfolding mapeamentoCredenciais_def by simp
  qed
qed

lemma chaves_ok_linhas:
  assumes "chaves_ok c"
  shows "linha_de_login c l \<longleftrightarrow> startsWith l (campo_login c @ ''='')"
    and "linha_de_senha c l \<longleftrightarrow> startsWith l (campo_senha c @ ''='')"
    and "campoLogin c = campo_login c" and "campoSenha c = campo_senha c"
    and "linha_de_login c l \<Longrightarrow> \<not> linha_de_senha c l"
proof -
  from assms show a: "campoLogin c = campo_login c" and b: "campoSenha c = campo_senha c"
    by (simp_all add: chaves_ok_def campoLogin_def campoSenha_def)
  show c: "linha_de_login c l \<longleftrightarrow> startsWith l (campo_login c @ ''='')"
    by (simp add: linha_de_login_def a)
  show d: "linha_de_senha c l \<longleftrightarrow> startsWith l (campo_senha c @ ''='')"
    by (simp add: linha_de_senha_def b)
  show "linha_de_login c l \<Longrightarrow> \<not> linha_de_senha c l"
    using assms startsWith_both [of l "campo_login c @ ''=''" "campo_senha c @ ''=''"]
    unfolding c d chaves_ok_def by blast
qed

lemma startsWith_append [simp]: "startsWith (p @ r) p"
  by (simp add: startsWith_def)


text \<open>
  A value that survives the reading: not empty (an empty field is not written), without
  \<open>=\<close> (the reader returns what stands between the first and the second \<open>=\<close>), without line
  feed, and not changed by \<open>trim\<close>. The other lines of a file are those that start with
  neither key followed by \<open>=\<close>.
\<close>

definition valor_limpo :: "string \<Rightarrow> bool" where
  "valor_limpo v = (v \<noteq> [] \<and> CHR ''='' \<notin> set v \<and> CHR 0x0A \<notin> set v \<and> trim v = v)"

definition outra_linha :: "campos \<Rightarrow> string \<Rightarrow> bool" where
  "outra_linha c l = (\<not> linha_de_login c l \<and> \<not> linha_de_senha c l)"

definition conteudo_env :: "string option \<Rightarrow> string" where
  "conteudo_env env = (case env of None \<Rightarrow> [] | Some t \<Rightarrow> t)"

lemma gravar_duas_linhas:
  assumes ok: "chaves_ok c" and l: "valor_limpo l" and s: "valor_limpo s"
    and semnl: "\<forall>x\<in>set ls0. CHR 0x0A \<notin> set x"
    and um_login: "length (filter (linha_de_login c) ls0) \<le> 1"
    and um_senha: "length (filter (linha_de_senha c) ls0) \<le> 1"
  defines "ls2 \<equiv> gravar_linha (linha_de_senha c) (campoSenha c @ CHR ''='' # s)
                    (gravar_linha (linha_de_login c) (campoLogin c @ CHR ''='' # l) ls0)"
  shows "split_on (CHR 0x0A) (join_nl ls2) = ls2"
    and "fold (ler_linha c) ls2 \<lparr> cred_login = None, cred_senha = None \<rparr>
          = \<lparr> cred_login = Some l, cred_senha = Some s \<rparr>"
    and "filter (outra_linha c) ls2 = filter (outra_linha c) ls0"
proof -
  let ?L = "campoLogin c @ CHR ''='' # l" and ?S = "campoSenha c @ CHR ''='' # s"
  let ?ls1 = "gravar_linha (linha_de_login c) ?L ls0"
  note k = chaves_ok_linhas [OF ok]
  have PL: "linha_de_login c ?L"
    using startsWith_append [of "campo_login c @ ''=''" l] by (simp add: k(1,3))
  have PS: "linha_de_senha c ?S"
    using startsWith_append [of "campo_senha c @ ''=''" s] by (simp add: k(2,4))
  have excl: "\<And>x. linha_de_login c x \<Longrightarrow> \<not> linha_de_senha c x"
    by (rule k(5))
  have excl': "\<And>x. linha_de_senha c x \<Longrightarrow> \<not> linha_de_login c x"
    using excl by blast
  have nlL: "CHR 0x0A \<notin> set ?L" and nlS: "CHR 0x0A \<notin> set ?S"
    using ok l s by (simp_all add: k chaves_ok_def valor_limpo_def)
  have "set ls2 \<subseteq> insert ?S (insert ?L (set ls0))"
    unfolding ls2_def
    using gravar_linha_set [of "linha_de_senha c" ?S ?ls1]
      gravar_linha_set [of "linha_de_login c" ?L ls0] by blast
  with semnl nlL nlS have "\<forall>x\<in>set ls2. CHR 0x0A \<notin> set x" by blast
  moreover have "ls2 \<noteq> []" unfolding ls2_def by (rule gravar_linha_nonempty)
  ultimately show "split_on (CHR 0x0A) (join_nl ls2) = ls2"
    by (simp add: split_join)
  have login1: "filter (linha_de_login c) ?ls1 = [?L]"
    using PL um_login by (rule gravar_linha_filter_same)
  have "filter (linha_de_login c) ls2 = filter (linha_de_login c) ?ls1"
    unfolding ls2_def by (rule gravar_linha_filter_other) (use PS excl' in auto)
  with login1 have login2: "filter (linha_de_login c) ls2 = [?L]" by simp
  have senha1: "filter (linha_de_senha c) ?ls1 = filter (linha_de_senha c) ls0"
    by (rule gravar_linha_filter_other) (use PL excl in auto)
  have senha2: "filter (linha_de_senha c) ls2 = [?S]"
    unfolding ls2_def by (rule gravar_linha_filter_same) (use PS um_senha senha1 in auto)
  have vL: "valor_da_linha ?L = l"
    using ok l by (simp add: k chaves_ok_def valor_limpo_def valor_da_linha_gravada)
  have vS: "valor_da_linha ?S = s"
    using ok s by (simp add: k chaves_ok_def valor_limpo_def valor_da_linha_gravada)
  have "cred_login (fold (ler_linha c) ls2 \<lparr> cred_login = None, cred_senha = None \<rparr>) = Some l"
    by (simp add: ler_login find_rev_single [OF login2] vL)
  moreover have "cred_senha (fold (ler_linha c) ls2 \<lparr> cred_login = None, cred_senha = None \<rparr>) = Some s"
    by (simp add: ler_senha find_rev_single [OF senha2] vS)
  ultimately show "fold (ler_linha c) ls2 \<lparr> cred_login = None, cred_senha = None \<rparr>
          = \<lparr> cred_login = Some l, cred_senha = Some s \<rparr>"
    by (cases "fold (ler_linha c) ls2 \<lparr> cred_login = None, cred_senha = None \<rparr>") simp
  have "filter (outra_linha c) ?ls1 = filter (outra_linha c) ls0"
    by (rule gravar_linha_filter_other) (use PL in \<open>auto simp: outra_linha_def\<close>)
  moreover have "filter (outra_linha c) ls2 = filter (outra_linha c) ?ls1"
    unfolding ls2_def
    by (rule gravar_linha_filter_other) (use PS in \<open>auto simp: outra_linha_def\<close>)
  ultimately show "filter (outra_linha c) ls2 = filter (outra_linha c) ls0" by simp
qed

text \<open>
  Claim C2, amended. For an integration with a key mapping that the environment permits, a
  login and a password that are clean in the sense of \<open>valor_limpo\<close>, an external check that
  does not reject them, and a file with at most one line for each of the two keys (or no
  file): \<open>atualizarCredenciaisBanco\<close> succeeds, \<open>obterCredenciaisBanco\<close> reads exactly that login
  and that password from the text it wrote, and the lines of the file that start with neither
  key followed by \<open>=\<close> are the same as before, in the same order.
\<close>

theorem credenciais_round_trip:
  assumes perm: "bancoId \<in> set (bancosPermitidos a)"
    and map: "mapeamentoCredenciais bancoId = Some c"
    and l: "valor_limpo l" and s: "valor_limpo s"
    and val: "validarToken \<longrightarrow> (\<forall>e. validar bancoId l s \<noteq> TokenRejeitado e)"
    and um_login: "length (filter (linha_de_login c) (split_on (CHR 0x0A) (conteudo_env env))) \<le> 1"
    and um_senha: "length (filter (linha_de_senha c) (split_on (CHR 0x0A) (conteudo_env env))) \<le> 1"
  shows "\<exists>novo v.
      atualizarCredenciaisBanco (Some a) bancoId \<lparr> cred_login = Some l, cred_senha = Some s \<rparr>
        validarToken validar env = Inr (novo, v)
    \<and> obterCredenciaisBanco (Some a) bancoId (Some novo)
        = Inr \<lparr> cred_login = Some l, cred_senha = Some s \<rparr>
    \<and> filter (outra_linha c) (split_on (CHR 0x0A) novo)
        = filter (outra_linha c) (split_on (CHR 0x0A) (conteudo_env env))"
proof -
  let ?ls0 = "split_on (CHR 0x0A) (conteudo_env env)"
  let ?ls2 = "gravar_linha (linha_de_senha c) (campoSenha c @ CHR ''='' # s)
                (gravar_linha (linha_de_login c) (campoLogin c @ CHR ''='' # l) ?ls0)"
  let ?v = "if validarToken then Some (validar bancoId l s) else None"
  have ok: "chaves_ok c" using map by (rule mapeamento_chaves_ok)
  have semnl: "\<forall>x\<in>set ?ls0. CHR 0x0A \<notin> set x"
    by (auto dest: split_on_no_sep)
  note g = gravar_duas_linhas [OF ok l s semnl um_login um_senha]
  have forn: "fornecido (Some l)" "fornecido (Some s)"
    using l s by (simp_all add: fornecido_def valor_limpo_def)
  have w: "atualizarCredenciaisBanco (Some a) bancoId \<lparr> cred_login = Some l, cred_senha = Some s \<rparr>
        validarToken validar env = Inr (join_nl ?ls2, ?v)"
    using perm map val forn
    by (auto simp: atualizarCredenciaisBanco_def Let_def conteudo_env_def
        split: option.splits validacao_externa.splits)
  have "obterCredenciaisBanco (Some a) bancoId (Some (join_nl ?ls2))
        = Inr (fold (ler_linha c) (split_on (CHR 0x0A) (join_nl ?ls2))
                 \<lparr> cred_login = None, cred_senha = None \<rparr>)"
    using map by (simp add: obterCredenciaisBanco_def)
  also have "\<dots> = Inr \<lparr> cred_login = Some l, cred_senha = Some s \<rparr>"
    by (simp only: g(1) g(2))
  finally have r: "obterCredenciaisBanco (Some a) bancoId (Some (join_nl ?ls2))
        = Inr \<lparr> cred_login = Some l, cred_senha = Some s \<rparr>" .
  have p: "filter (outra_linha c) (split_on (CHR 0x0A) (join_nl ?ls2))
        = filter (outra_linha c) (split_on (CHR 0x0A) (conteudo_env env))"
    by (simp only: g(1) g(3))
  from w r p show ?thesis by blast
qed

text \<open>A file with a comment, another key, one login line and a final line feed.\<close>

definition env_ex :: string where
  "env_ex = ''# Ambiente 5005\<newline>PORT=5005\<newline>V8_USERNAME=velho\<newline>''"

lemma split_env_ex:
  "split_on (CHR 0x0A) env_ex = [''# Ambiente 5005'', ''PORT=5005'', ''V8_USERNAME=velho'', []]"
  by (simp add: env_ex_def)

lemma mapeamento_v8:
  "mapeamentoCredenciais ''v8'' = Some \<lparr> campo_login = ''V8_USERNAME'', campo_senha = ''V8_PASSWORD'',
               campo_usr = ''V8_USR'', campo_pass = ''V8_PASS'' \<rparr>"
  by (simp add: mapeamentoCredenciais_def)

text \<open>
  Claim C2, as stated, fails: the claim is for every password string. A password that
  starts with a space is written as it is and read back without the space, since the reader
  trims the value.
\<close>

theorem credenciais_trimmed_on_read:
  "\<forall>H. (case atualizarCredenciaisBanco (Some (hd (ambientes (db_qa H)))) ''v8''
              \<lparr> cred_login = Some ''ana'', cred_senha = Some '' segredo'' \<rparr>
              False (\<lambda>b l s. TokenValido) (Some env_ex) of
            Inl e \<Rightarrow> Inl e
          | Inr (novo, v) \<Rightarrow> obterCredenciaisBanco (Some (hd (ambientes (db_qa H)))) ''v8'' (Some novo))
        = Inr \<lparr> cred_login = Some ''ana'', cred_senha = Some ''segredo'' \<rparr>"
  by (simp add: atualizarCredenciaisBanco_def obterCredenciaisBanco_def db_qa_eq mapeamento_v8
      fornecido_def split_env_ex gravar_linha_def linha_de_login_def linha_de_senha_def
      campoLogin_def campoSenha_def startsWith_def ler_linha_def valor_da_linha_def trim_def
      is_space_def Let_def)

theorem credenciais_round_trip_witness:
  "\<forall>H. \<exists>novo v.
      atualizarCredenciaisBanco (Some (hd (ambientes (db_qa H)))) ''v8''
        \<lparr> cred_login = Some ''ana'', cred_senha = Some ''segredo'' \<rparr>
        True (\<lambda>b l s. TokenValido) (Some env_ex) = Inr (novo, v)
    \<and> obterCredenciaisBanco (Some (hd (ambientes (db_qa H)))) ''v8'' (Some novo)
        = Inr \<lparr> cred_login = Some ''ana'', cred_senha = Some ''segredo'' \<rparr>
    \<and> filter (outra_linha \<lparr> campo_login = ''V8_USERNAME'', campo_senha = ''V8_PASSWORD'',
               campo_usr = ''V8_USR'', campo_pass = ''V8_PASS'' \<rparr>) (split_on (CHR 0x0A) novo)
        = [''# Ambiente 5005'', ''PORT=5005'', []]"
proof (intro allI)
  fix H :: "string \<Rightarrow> string"
  let ?c = "\<lparr> campo_login = ''V8_USERNAME'', campo_senha = ''V8_PASSWORD'',
               campo_usr = ''V8_USR'', campo_pass = ''V8_PASS'' \<rparr>"
  let ?a = "hd (ambientes (db_qa H))"
  have perm: "''v8'' \<in> set (bancosPermitidos ?a)" by (simp add: db_qa_eq)
  have l: "valor_limpo ''ana''" and s: "valor_limpo ''segredo''"
    by (simp_all add: valor_limpo_def trim_def is_space_def)
  have val: "True \<longrightarrow> (\<forall>e. (\<lambda>b l s. TokenValido) ''v8'' ''ana'' ''segredo'' \<noteq> TokenRejeitado e)"
    by simp
  have um_login: "length (filter (linha_de_login ?c) (split_on (CHR 0x0A) (conteudo_env (Some env_ex)))) \<le> 1"
    by (simp add: conteudo_env_def split_env_ex linha_de_login_def campoLogin_def startsWith_def)
  have um_senha: "length (filter (linha_de_senha ?c) (split_on (CHR 0x0A) (conteudo_env (Some env_ex)))) \<le> 1"
    by (simp add: conteudo_env_def split_env_ex linha_de_senha_def campoSenha_def startsWith_def)
  have outras: "filter (outra_linha ?c) (split_on (CHR 0x0A) (conteudo_env (Some env_ex)))
      = [''# Ambiente 5005'', ''PORT=5005'', []]"
    by (simp add: conteudo_env_def split_env_ex outra_linha_def linha_de_login_def
        linha_de_senha_def campoLogin_def campoSenha_def startsWith_def)
  show "\<exists>novo v.
      atualizarCredenciaisBanco (Some ?a) ''v8''
        \<lparr> cred_login = Some ''ana'', cred_senha = Some ''segredo'' \<rparr>
        True (\<lambda>b l s. TokenValido) (Some env_ex) = Inr (novo, v)
    \<and> obterCredenciaisBanco (Some ?a) ''v8'' (Some novo)
        = Inr \<lparr> cred_login = Some ''ana'', cred_senha = Some ''segredo'' \<rparr>
    \<and> filter (outra_linha ?c) (split_on (CHR 0x0A) novo)
        = [''# Ambiente 5005'', ''PORT=5005'', []]"
    using credenciais_round_trip [OF perm mapeamento_v8 l s val um_login um_senha]
    unfolding outras .
qed

section \<open>Properties of the batch job\<close>

text \<open>Every callback counts its item once, as a success or as an error, also when it is rejected.\<close>

definition contas_certas :: "nat \<Rightarrow> lote \<Rightarrow> bool" where
  "contas_certas n l =
     (processados (progresso l) = n
      \<and> processados (progresso l) = sucesso (progresso l) + erro (progresso l))"

lemma contas_processar_item:
  "contas_certas n l \<Longrightarrow> contas_certas (Suc n) (fst (processar_item simular l it))"
  by (simp add: contas_certas_def processar_item_def item_com_excecao_def Let_def
      split: option.splits resposta.splits)

lemma frame_processar_item [simp]:
  "total (progresso (fst (processar_item simular l it))) = total (progresso l)"
  "status (fst (processar_item simular l it)) = status l"
  by (simp_all add: processar_item_def item_com_excecao_def Let_def
      split: option.splits resposta.splits)

lemma contas_acumular_item:
  "contas_certas n (fst st) \<Longrightarrow> contas_certas (Suc n) (fst (acumular_item simular it st))"
  using contas_processar_item [of n "fst st" simular it]
  by (cases "processar_item simular (fst st) it") (simp add: acumular_item_def)

lemma frame_acumular_item [simp]:
  "total (progresso (fst (acumular_item simular it st))) = total (progresso (fst st))"
  "status (fst (acumular_item simular it st)) = status (fst st)"
  using frame_processar_item [of simular "fst st" it]
  by (cases "processar_item simular (fst st) it"; simp add: acumular_item_def)+

lemma contas_fold:
  "contas_certas n (fst st) \<Longrightarrow>
   contas_certas (n + length itens) (fst (fold (acumular_item simular) itens st))"
proof (induction itens arbitrary: n st)
  case Nil
  then show ?case by simp
next
  case (Cons a itens)
  from Cons.IH [OF contas_acumular_item [OF Cons.prems]] show ?case by simp
qed

lemma frame_fold [simp]:
  "total (progresso (fst (fold (acumular_item simular) itens st))) = total (progresso (fst st))"
  "status (fst (fold (acumular_item simular) itens st)) = status (fst st)"
  by (induction itens arbitrary: st) simp_all

lemma contas_processar_onda:
  "contas_certas n l \<Longrightarrow> contas_certas (n + length itens) (fst (processar_onda simular itens l))"
  using contas_fold [of n "(l, False)" itens simular] by (simp add: processar_onda_def)

lemma frame_processar_onda [simp]:
  "total (progresso (fst (processar_onda simular itens l))) = total (progresso l)"
  "status (fst (processar_onda simular itens l)) = status l"
  by (simp_all add: processar_onda_def)

text \<open>
  The invariant of the loop: at index \<open>i\<close>, the items before \<open>i\<close> have been counted. If the
  job ends as \<open>Concluido\<close>, all items have.
\<close>

lemma processarOndas_contas:
  "\<forall>w. length (ordem w) = length w \<Longrightarrow>
   contas_certas (min i (length (dados l))) l \<Longrightarrow> status l = Processando \<Longrightarrow>
   status (processarOndas simular ordem i l) = Concluido \<Longrightarrow>
   contas_certas (length (dados l)) (processarOndas simular ordem i l)
   \<and> total (progresso (processarOndas simular ordem i l)) = total (progresso l)"
proof (induction simular ordem i l rule: processarOndas.induct)
  case (1 simular ordem i l)
  show ?case
  proof (cases "i < length (dados l)")
    case False
    with "1.prems" show ?thesis
      by (simp add: processarOndas.simps [of simular ordem i l] contas_certas_def)
  next
    case True
    define w where "w = ordem (take LIMITE_SIMULTANEOS (drop i (dados l)))"
    define r where "r = processar_onda simular w l"
    have len: "length w = min LIMITE_SIMULTANEOS (length (dados l) - i)"
      using "1.prems"(1) by (simp add: w_def)
    have step: "processarOndas simular ordem i l
        = (if snd r then fst r else processarOndas simular ordem (i + LIMITE_SIMULTANEOS) (fst r))"
      using True by (simp add: processarOndas.simps [of simular ordem i l] Let_def w_def r_def)
    show ?thesis
    proof (cases "snd r")
      case rej: True
      with step have "processarOndas simular ordem i l = fst r" by simp
      with "1.prems" show ?thesis by (simp add: r_def)
    next
      case ok: False
      with step have eq: "processarOndas simular ordem i l
          = processarOndas simular ordem (i + LIMITE_SIMULTANEOS) (fst r)" by simp
      have d: "dados (fst r) = dados l" by (simp add: r_def)
      from True "1.prems"(2) have "contas_certas i l" by simp
      then have "contas_certas (i + length w) (fst r)"
        unfolding r_def by (rule contas_processar_onda)
      moreover have "i + length w = min (i + LIMITE_SIMULTANEOS) (length (dados l))"
        using True len by arith
      ultimately have a: "contas_certas (min (i + LIMITE_SIMULTANEOS) (length (dados (fst r)))) (fst r)"
        by (simp add: d)
      have b: "status (fst r) = Processando" using "1.prems"(3) by (simp add: r_def)
      have c: "status (processarOndas simular ordem (i + LIMITE_SIMULTANEOS) (fst r)) = Concluido"
        using "1.prems"(4) eq by simp
      have t: "total (progresso (fst r)) = total (progresso l)" by (simp add: r_def)
      note IH = "1.IH" [OF True refl refl, folded w_def, folded r_def]
      from IH [OF ok "1.prems"(1) a b c]
      show ?thesis
        unfolding eq d t .
    qed
  qed
qed

text \<open>A job none of whose items lacks its \<open>cpf\<close> has no rejected promise and ends as \<open>Concluido\<close>.\<close>

lemma processar_item_aceito:
  "cpf it \<noteq> None \<Longrightarrow> \<not> snd (processar_item simular l it)"
  by (auto simp: processar_item_def item_com_excecao_def Let_def
      split: option.splits resposta.splits)

lemma acumular_item_aceito:
  "cpf it \<noteq> None \<Longrightarrow> snd (acumular_item simular it st) = snd st"
  using processar_item_aceito [of it simular "fst st"]
  by (cases "processar_item simular (fst st) it") (simp add: acumular_item_def)

lemma fold_aceito:
  "\<forall>it\<in>set itens. cpf it \<noteq> None \<Longrightarrow>
   snd (fold (acumular_item simular) itens st) = snd st"
  by (induction itens arbitrary: st) (simp_all add: acumular_item_aceito)

lemma processar_onda_aceito:
  "\<forall>it\<in>set itens. cpf it \<noteq> None \<Longrightarrow> \<not> snd (processar_onda simular itens l)"
  by (simp add: processar_onda_def fold_aceito)

lemma processarOndas_conclui:
  "\<forall>w. set (ordem w) \<subseteq> set w \<Longrightarrow> \<forall>it\<in>set (dados l). cpf it \<noteq> None \<Longrightarrow>
   status (processarOndas simular ordem i l) = Concluido"
proof (induction simular ordem i l rule: processarOndas.induct)
  case (1 simular ordem i l)
  show ?case
  proof (cases "i < length (dados l)")
    case False
    then show ?thesis by (simp add: processarOndas.simps [of simular ordem i l])
  next
    case True
    define w where "w = ordem (take LIMITE_SIMULTANEOS (drop i (dados l)))"
    define r where "r = processar_onda simular w l"
    have "set w \<subseteq> set (take LIMITE_SIMULTANEOS (drop i (dados l)))"
      using "1.prems"(1) by (simp add: w_def)
    also have "\<dots> \<subseteq> set (dados l)"
      by (meson set_take_subset set_drop_subset subset_trans)
    finally have "\<forall>it\<in>set w. cpf it \<noteq> None" using "1.prems"(2) by blast
    then have ok: "\<not> snd r" unfolding r_def by (rule processar_onda_aceito)
    have eq: "processarOndas simular ordem i l
        = processarOndas simular ordem (i + LIMITE_SIMULTANEOS) (fst r)"
      using True ok by (simp add: processarOndas.simps [of simular ordem i l] Let_def w_def r_def)
    have d: "\<forall>it\<in>set (dados (fst r)). cpf it \<noteq> None"
      using "1.prems"(2) by (simp add: r_def)
    note IH = "1.IH" [OF True refl refl, folded w_def, folded r_def]
    from IH [OF ok "1.prems"(1) d] show ?thesis by (simp add: eq)
  qed
qed

text \<open>
  Claim C8. A job created for any list of items, run by \<open>processarLote\<close> with any lookup
  and any order of completion within the waves: if its status is \<open>Concluido\<close> afterwards, then
  \<open>processados = sucesso + erro\<close>, \<open>processados = total\<close> and \<open>total\<close> is the length of the
  list. The status is \<open>Concluido\<close> whenever every item has a \<open>cpf\<close>.
\<close>

theorem processarLote_completion:
  "\<forall>w. mset (ordem w) = mset w \<Longrightarrow>
   lotes loteId = Some (novoLote ds bs p a) \<Longrightarrow>
   (\<exists>l. processarLote simular ordem loteId lotes loteId = Some l
      \<and> (status l = Concluido \<longrightarrow>
            processados (progresso l) = sucesso (progresso l) + erro (progresso l)
            \<and> processados (progresso l) = total (progresso l)
            \<and> total (progresso l) = length ds)
      \<and> ((\<forall>it\<in>set ds. cpf it \<noteq> None) \<longrightarrow> status l = Concluido))"
proof -
  assume perm: "\<forall>w. mset (ordem w) = mset w" and lote: "lotes loteId = Some (novoLote ds bs p a)"
  let ?ini = "novoLote ds bs p a"
  let ?res = "processarOndas simular ordem 0 ?ini"
  have len: "\<forall>w. length (ordem w) = length w"
    using perm by (metis size_mset)
  have sub: "\<forall>w. set (ordem w) \<subseteq> set w"
    using perm by (metis set_mset_mset subset_refl)
  have run: "processarLote simular ordem loteId lotes loteId = Some ?res"
    using lote by (simp add: processarLote_def)
  have d0: "dados ?ini = ds" "total (progresso ?ini) = length ds" "status ?ini = Processando"
    by (simp_all add: novoLote_def)
  have c0: "contas_certas (min 0 (length (dados ?ini))) ?ini"
    by (simp add: contas_certas_def novoLote_def)
  have fim: "status ?res = Concluido \<longrightarrow>
            processados (progresso ?res) = sucesso (progresso ?res) + erro (progresso ?res)
            \<and> processados (progresso ?res) = total (progresso ?res)
            \<and> total (progresso ?res) = length ds"
    using processarOndas_contas [OF len c0 d0(3), of simular] d0
    by (auto simp: contas_certas_def)
  have live: "(\<forall>it\<in>set ds. cpf it \<noteq> None) \<longrightarrow> status ?res = Concluido"
    using processarOndas_conclui [OF sub, of ?ini simular 0] d0(1) by simp
  from run fim live show ?thesis by blast
qed

text \<open>Twenty-five items: three waves of ten, ten and five.\<close>

definition itens25 :: "item_lote list" where
  "itens25 = replicate 25 \<lparr> cpf = Some ''123.456.789-00'', telefone = Some ''(11) 99999-0000'',
                             dataNascimento = None \<rparr>"

theorem processarLote_completion_witness:
  "\<exists>l. processarLote (\<lambda>c t d b p a. Respostas [(''v8'', True)]) rev ''lote-1''
          [''lote-1'' \<mapsto> novoLote itens25 [''v8''] 4000 ''temp-4000''] ''lote-1'' = Some l
      \<and> status l = Concluido
      \<and> processados (progresso l) = sucesso (progresso l) + erro (progresso l)
      \<and> processados (progresso l) = 25 \<and> total (progresso l) = 25"
proof -
  have perm: "\<forall>w :: item_lote list. mset (rev w) = mset w" by simp
  have lote: "[''lote-1'' \<mapsto> novoLote itens25 [''v8''] 4000 ''temp-4000''] ''lote-1''
      = Some (novoLote itens25 [''v8''] 4000 ''temp-4000'')" by simp
  have c: "\<forall>it\<in>set itens25. cpf it \<noteq> None" by (simp add: itens25_def)
  have n: "length itens25 = 25" by (simp add: itens25_def)
  show ?thesis
    using processarLote_completion [where ordem=rev and loteId="''lote-1''"
        and lotes="[''lote-1'' \<mapsto> novoLote itens25 [''v8''] 4000 ''temp-4000'']"
        and ds=itens25 and bs="[''v8'']" and p=4000 and a="''temp-4000''"
        and simular="\<lambda>c t d b p a. Respostas [(''v8'', True)]", OF perm lote] c n
    by auto
qed

section \<open>Properties of the directory copy\<close>

text \<open>
  The specification's side. \<open>podar\<close> is the source tree without the excluded entries, at
  every level; \<open>caminho\<close> follows a relative path, \<open>caminho_opt\<close> in a tree that may not
  exist; a tree is well formed when no directory lists a name twice, as is the case for
  what \<open>readdirSync\<close> returns.
\<close>

fun podar :: "no \<Rightarrow> no" where
  "podar (Arquivo c) = Arquivo c"
| "podar (Diretorio es) =
     Diretorio (map (\<lambda>e. (fst e, podar (snd e))) (filter (\<lambda>e. \<not> ignorado (fst e)) es))"

fun caminho :: "no \<Rightarrow> string list \<Rightarrow> no option" where
  "caminho n [] = Some n"
| "caminho (Arquivo c) (k # ks) = None"
| "caminho (Diretorio es) (k # ks) =
     (case map_of es k of None \<Rightarrow> None | Some m \<Rightarrow> caminho m ks)"

fun caminho_opt :: "no option \<Rightarrow> string list \<Rightarrow> no option" where
  "caminho_opt None p = None"
| "caminho_opt (Some n) p = caminho n p"

fun bem_formado :: "no \<Rightarrow> bool" where
  "bem_formado (Arquivo c) = True"
| "bem_formado (Diretorio es) =
     (distinct (map fst es) \<and> (\<forall>e\<in>set es. bem_formado (snd e)))"

text \<open>
  What a copy for the integration \<open>b\<close> leaves of the content \<open>c\<close> of a source file at the
  path \<open>p\<close>: the content itself, unless an identifier with rules is supplied and the file is
  the \<open>config/config.env\<close> of a copied directory; then it is the content filtered.
\<close>

definition filtro :: "string option \<Rightarrow> string \<Rightarrow> string" where
  "filtro b c =
     (if fornecido b
      then (case credenciaisPorBanco (pasta_do_banco (the b)) of
              None \<Rightarrow> c
            | Some r \<Rightarrow> filtrar_config r c)
      else c)"

definition conteudo_copiado :: "string option \<Rightarrow> string list \<Rightarrow> string \<Rightarrow> string" where
  "conteudo_copiado b p c =
     (if drop (length p - 2) p = [''config'', ''config.env''] then filtro b c else c)"

subsection \<open>A copy with no identifier to a destination that does not exist\<close>

lemma update_novo: "k \<notin> fst ` set al \<Longrightarrow> AList.update k v al = al @ [(k, v)]"
  by (induction al) auto

lemma copiarItens_sem_banco:
  assumes sub: "\<And>k n sub. (k, n) \<in> set itens \<Longrightarrow> n = Diretorio sub \<Longrightarrow> bem_formado n \<Longrightarrow>
                  copiarDiretorio b (Some n) None = Inr (True, Some (podar n))"
  shows "distinct (map fst itens) \<Longrightarrow> \<forall>e\<in>set itens. bem_formado (snd e) \<Longrightarrow>
         fst ` set itens \<inter> fst ` set acc = {} \<Longrightarrow>
         copiarItens b itens (Diretorio acc)
           = Inr (Diretorio (acc @ map (\<lambda>e. (fst e, podar (snd e)))
                                     (filter (\<lambda>e. \<not> ignorado (fst e)) itens)))"
  using sub
proof (induction itens arbitrary: acc)
  case Nil
  then show ?case by simp
next
  case (Cons e itens)
  obtain k n where e: "e = (k, n)" by (cases e)
  have rest: "copiarItens b itens (Diretorio acc') =
      Inr (Diretorio (acc' @ map (\<lambda>e. (fst e, podar (snd e)))
                                 (filter (\<lambda>e. \<not> ignorado (fst e)) itens)))"
    if "fst ` set itens \<inter> fst ` set acc' = {}" for acc'
    using Cons.IH [OF _ _ that] Cons.prems by auto
  from Cons.prems(3) e have novo: "k \<notin> fst ` set acc" by auto
  then have vazio: "map_of acc k = None" by (simp add: map_of_eq_None_iff)
  show ?case
  proof (cases "ignorado k")
    case True
    with e rest [of acc] Cons.prems(3) show ?thesis by auto
  next
    case False
    have disj: "fst ` set itens \<inter> fst ` set (acc @ [(k, v)]) = {}" for v
      using Cons.prems(1,3) e by auto
    show ?thesis
    proof (cases n)
      case (Arquivo c)
      with e False vazio novo rest [OF disj] show ?thesis
        by (simp add: update_novo)
    next
      case (Diretorio sub)
      from Cons.prems(2) e have "bem_formado n" by simp
      with Cons.prems(4) [of k n sub] e Diretorio
      have "copiarDiretorio b (Some n) None = Inr (True, Some (podar n))" by simp
      with e False vazio novo rest [OF disj] Diretorio show ?thesis
        by (simp add: update_novo)
    qed
  qed
qed

lemma copiarDiretorio_sem_banco:
  "\<not> fornecido b \<Longrightarrow> bem_formado (Diretorio itens) \<Longrightarrow>
   copiarDiretorio b (Some (Diretorio itens)) None = Inr (True, Some (podar (Diretorio itens)))"
proof (induction "Diretorio itens" arbitrary: itens rule: no.induct)
  case (Diretorio itens)
  have "copiarItens b itens (Diretorio [])
      = Inr (Diretorio ([] @ map (\<lambda>e. (fst e, podar (snd e)))
                                (filter (\<lambda>e. \<not> ignorado (fst e)) itens)))"
  proof (rule copiarItens_sem_banco)
    fix k n sub
    assume "(k, n) \<in> set itens" "n = Diretorio sub" "bem_formado n"
    then show "copiarDiretorio b (Some n) None = Inr (True, Some (podar n))"
      using Diretorio.hyps Diretorio.prems(1) by fastforce
  qed (use Diretorio.prems in auto)
  with Diretorio.prems(1) show ?case by simp
qed

subsection \<open>One level of a copy\<close>

lemma nao_ignorado_config: "\<not> ignorado ''config''" "\<not> ignorado ''config.env''"
  by (simp_all add: ignorado_def startsWith_def)

lemma copiarDiretorio_Inr:
  "copiarDiretorio b (Some (Diretorio itens)) dst = Inr r \<Longrightarrow> \<exists>m. r = (True, Some m)"
  by (auto split: sum.splits if_splits)

text \<open>The loop over the entries, on a destination that is a file: it has nothing to copy.\<close>

lemma copiarItens_arquivo:
  "copiarItens b itens (Arquivo t) = Inr d' \<Longrightarrow> d' = Arquivo t \<and> (\<forall>e\<in>set itens. ignorado (fst e))"
proof (induction itens)
  case Nil
  then show ?case by simp
next
  case (Cons e itens)
  obtain k n where e: "e = (k, n)" by (cases e)
  with Cons show ?case by (cases "ignorado k") auto
qed

text \<open>
  The loop over the entries, on a destination directory, seen at one name \<open>k\<close>: an entry of
  the destination whose name the source does not list, or lists as excluded, is left alone;
  a file is written under its name; a directory is what its own copy, to what the
  destination held under that name, returns.
\<close>

definition nivel :: "string option \<Rightarrow> (string \<times> no) list \<Rightarrow> (string \<times> no) list \<Rightarrow> string
    \<Rightarrow> no option \<Rightarrow> bool" where
  "nivel b itens es k v =
     (case map_of itens k of
        None \<Rightarrow> v = map_of es k
      | Some n \<Rightarrow>
          if ignorado k then v = map_of es k
          else (case n of
                  Arquivo c \<Rightarrow> v = Some (Arquivo c) \<and> (\<forall>ds. map_of es k \<noteq> Some (Diretorio ds))
                | Diretorio sub \<Rightarrow>
                    (\<exists>m. copiarDiretorio b (Some n) (map_of es k) = Inr (True, Some m)
                       \<and> v = Some m)))"

lemma nivel_fora: "map_of itens k = None \<Longrightarrow> nivel b itens es k v = (v = map_of es k)"
  by (simp add: nivel_def)

lemma nivel_cong:
  "map_of es2 k = map_of es k \<Longrightarrow> nivel b itens es2 k v = nivel b itens es k v"
  unfolding nivel_def by (rule arg_cong [where f="\<lambda>x. case map_of itens k of
        None \<Rightarrow> v = x
      | Some n \<Rightarrow>
          if ignorado k then v = x
          else (case n of
                  Arquivo c \<Rightarrow> v = Some (Arquivo c) \<and> (\<forall>ds. x \<noteq> Some (Diretorio ds))
                | Diretorio sub \<Rightarrow>
                    (\<exists>m. copiarDiretorio b (Some n) x = Inr (True, Some m) \<and> v = Some m))"])

lemma copiarItens_nivel:
  "distinct (map fst itens) \<Longrightarrow> copiarItens b itens (Diretorio es) = Inr d' \<Longrightarrow>
   \<exists>es'. d' = Diretorio es' \<and> nivel b itens es k (map_of es' k)"
proof (induction itens arbitrary: es)
  case Nil
  then show ?case by (auto simp: nivel_def)
next
  case (Cons e itens)
  obtain it n where e: "e = (it, n)" by (cases e)
  from Cons.prems(1) e have dist: "distinct (map fst itens)" and novo: "it \<notin> fst ` set itens"
    by auto
  from novo have fora: "map_of itens it = None"
    by (simp add: map_of_eq_None_iff)
  have outro: "nivel b (e # itens) es k v = nivel b itens es k v" if "k \<noteq> it" for v
    using that e by (simp add: nivel_def del: copiarDiretorio.simps)
  show ?case
  proof (cases "ignorado it")
    case True
    with Cons.prems(2) e have "copiarItens b itens (Diretorio es) = Inr d'" by simp
    from Cons.IH [OF dist this] obtain es' where es': "d' = Diretorio es'"
      and n: "nivel b itens es k (map_of es' k)"
      by blast
    have "nivel b (e # itens) es k (map_of es' k)"
    proof (cases "k = it")
      case False
      with n outro show ?thesis by simp
    next
      case k: True
      with n fora have "map_of es' k = map_of es k" by (simp add: nivel_fora)
      with k e True show ?thesis by (simp add: nivel_def)
    qed
    with es' show ?thesis by blast
  next
    case False
    show ?thesis
    proof (cases n)
      case (Arquivo c)
      with Cons.prems(2) e False have nd: "\<forall>ds. map_of es it \<noteq> Some (Diretorio ds)"
        by (auto split: option.splits no.splits)
      with Cons.prems(2) e False Arquivo
      have "copiarItens b itens (Diretorio (AList.update it (Arquivo c) es)) = Inr d'"
        by (auto split: option.splits no.splits)
      from Cons.IH [OF dist this] obtain es' where es': "d' = Diretorio es'"
        and n: "nivel b itens (AList.update it (Arquivo c) es) k (map_of es' k)"
        by blast
      have u: "map_of (AList.update it (Arquivo c) es) x
                 = (if x = it then Some (Arquivo c) else map_of es x)" for x
        by (simp add: update_conv')
      have "nivel b (e # itens) es k (map_of es' k)"
      proof (cases "k = it")
        case k: False
        then have "map_of (AList.update it (Arquivo c) es) k = map_of es k" by (simp add: u)
        from n [unfolded nivel_cong [OF this]] outro [OF k] show ?thesis by simp
      next
        case k: True
        with n fora have "map_of es' k = Some (Arquivo c)" by (simp add: nivel_fora u)
        with k e False Arquivo nd show ?thesis by (simp add: nivel_def)
      qed
      with es' show ?thesis by blast
    next
      case (Diretorio sub)
      with Cons.prems(2) e False
      obtain r where r: "copiarDiretorio b (Some (Diretorio sub)) (map_of es it) = Inr r"
        by (auto split: sum.splits simp del: copiarDiretorio.simps)
      from copiarDiretorio_Inr [OF r] obtain m where m: "r = (True, Some m)" by blast
      with Cons.prems(2) e False Diretorio r
      have "copiarItens b itens (Diretorio (AList.update it m es)) = Inr d'"
        by (simp del: copiarDiretorio.simps)
      from Cons.IH [OF dist this] obtain es' where es': "d' = Diretorio es'"
        and n: "nivel b itens (AList.update it m es) k (map_of es' k)"
        by blast
      have u: "map_of (AList.update it m es) x = (if x = it then Some m else map_of es x)" for x
        by (simp add: update_conv')
      have "nivel b (e # itens) es k (map_of es' k)"
      proof (cases "k = it")
        case k: False
        then have "map_of (AList.update it m es) k = map_of es k" by (simp add: u)
        from n [unfolded nivel_cong [OF this]] outro [OF k] show ?thesis by simp
      next
        case k: True
        with n fora have "map_of es' k = Some m" by (simp add: nivel_fora u)
        with k e False Diretorio r m show ?thesis
          by (simp add: nivel_def del: copiarDiretorio.simps)
      qed
      with es' show ?thesis by blast
    qed
  qed
qed

subsection \<open>The effect of \<open>limparConfigEnvBanco\<close> on the paths of a directory\<close>

lemma caminho_cons: "caminho (Diretorio es) (k # ks) = caminho_opt (map_of es k) ks"
  by (cases "map_of es k") simp_all

lemma caminho_arquivo: "caminho (Arquivo c) p = (if p = [] then Some (Arquivo c) else None)"
  by (cases p) simp_all

text \<open>The tree after the file \<open>config/config.env\<close> has been rewritten.\<close>

lemma caminho_reescrito:
  assumes cfg: "map_of es ''config'' = Some (Diretorio cs)"
    and env: "map_of cs ''config.env'' = Some (Arquivo t)"
  shows "p \<noteq> [] \<Longrightarrow> p \<noteq> [''config''] \<Longrightarrow> p \<noteq> [''config'', ''config.env''] \<Longrightarrow>
         caminho (Diretorio (AList.update ''config''
                    (Diretorio (AList.update ''config.env'' (Arquivo t') cs)) es)) p
           = caminho (Diretorio es) p"
    and "caminho (Diretorio (AList.update ''config''
                    (Diretorio (AList.update ''config.env'' (Arquivo t') cs)) es))
           [''config'', ''config.env''] = Some (Arquivo t')"
    and "caminho (Diretorio (AList.update ''config''
                    (Diretorio (AList.update ''config.env'' (Arquivo t') cs)) es)) [''config'']
           = Some (Diretorio (AList.update ''config.env'' (Arquivo t') cs))"
proof -
  let ?cs = "AList.update ''config.env'' (Arquivo t') cs"
  let ?es = "AList.update ''config'' (Diretorio ?cs) es"
  show "caminho (Diretorio ?es) [''config'', ''config.env''] = Some (Arquivo t')"
    by (simp add: update_conv')
  show "caminho (Diretorio ?es) [''config''] = Some (Diretorio ?cs)"
    by (simp add: update_conv')
  assume p: "p \<noteq> []" "p \<noteq> [''config'']" "p \<noteq> [''config'', ''config.env'']"
  then obtain k ks where kks: "p = k # ks" by (cases p) auto
  show "caminho (Diretorio ?es) p = caminho (Diretorio es) p"
  proof (cases "k = ''config''")
    case False
    with kks show ?thesis by (simp add: update_conv')
  next
    case True
    with p kks obtain x xs where xxs: "ks = x # xs" by (cases ks) auto
    show ?thesis
    proof (cases "x = ''config.env''")
      case False
      with True kks xxs cfg show ?thesis by (simp add: update_conv')
    next
      case x: True
      with p kks xxs True have "xs \<noteq> []" by auto
      then obtain y ys where "xs = y # ys" by (cases xs) auto
      with True x kks xxs cfg env show ?thesis by (simp add: update_conv')
    qed
  qed
qed

text \<open>
  \<open>limparConfigEnvBanco\<close>, called when an identifier is supplied, changes the content of the
  file \<open>config/config.env\<close> and nothing else.
\<close>

lemma limpar_formas:
  assumes "(if fornecido b then limparConfigEnvBanco (Diretorio es) (the b)
            else Inr (Diretorio es)) = Inr d"
  shows "(d = Diretorio es
          \<and> (\<forall>t. caminho (Diretorio es) [''config'', ''config.env''] = Some (Arquivo t)
                \<longrightarrow> filtro b t = t))
       \<or> (\<exists>cs t. map_of es ''config'' = Some (Diretorio cs)
             \<and> map_of cs ''config.env'' = Some (Arquivo t)
             \<and> d = Diretorio (AList.update ''config''
                      (Diretorio (AList.update ''config.env'' (Arquivo (filtro b t)) cs)) es))"
proof (cases "fornecido b")
  case False
  with assms show ?thesis by (auto simp: filtro_def)
next
  case True
  with assms have l: "limparConfigEnvBanco (Diretorio es) (the b) = Inr d" by simp
  show ?thesis
  proof (cases "map_of es ''config''")
    case None
    with l show ?thesis by (auto simp: limparConfigEnvBanco_def)
  next
    case (Some n)
    show ?thesis
    proof (cases n)
      case (Arquivo c)
      with l Some show ?thesis by (auto simp: limparConfigEnvBanco_def)
    next
      case (Diretorio cs)
      show ?thesis
      proof (cases "map_of cs ''config.env''")
        case None
        with l Some Diretorio show ?thesis by (auto simp: limparConfigEnvBanco_def)
      next
        case env: (Some m)
        show ?thesis
        proof (cases "credenciaisPorBanco (pasta_do_banco (the b))")
          case None
          with l Some Diretorio env True show ?thesis
            by (auto simp: limparConfigEnvBanco_def filtro_def)
        next
          case r: (Some r)
          show ?thesis
          proof (cases m)
            case (Arquivo t)
            with l Some Diretorio env r True show ?thesis
              by (auto simp: limparConfigEnvBanco_def filtro_def)
          next
            case m: (Diretorio ds)
            with l Some Diretorio env r show ?thesis
              by (auto simp: limparConfigEnvBanco_def)
          qed
        qed
      qed
    qed
  qed
qed

lemma limpar_caminho:
  assumes "(if fornecido b then limparConfigEnvBanco (Diretorio es) (the b)
            else Inr (Diretorio es)) = Inr d"
  shows "p \<noteq> [] \<Longrightarrow> p \<noteq> [''config''] \<Longrightarrow> p \<noteq> [''config'', ''config.env''] \<Longrightarrow>
         caminho d p = caminho (Diretorio es) p"
    and "caminho (Diretorio es) [''config'', ''config.env''] = Some (Arquivo t) \<Longrightarrow>
         caminho d [''config'', ''config.env''] = Some (Arquivo (filtro b t))"
    and "caminho (Diretorio es) [''config'', ''config.env''] = Some (Diretorio ds) \<Longrightarrow>
         caminho d [''config'', ''config.env''] = Some (Diretorio ds)"
    and "caminho (Diretorio es) [''config''] = Some (Arquivo t) \<Longrightarrow>
         caminho d [''config''] = Some (Arquivo t)"
    and "caminho (Diretorio es) [''config''] = Some (Diretorio cs) \<Longrightarrow>
         \<exists>cs'. caminho d [''config''] = Some (Diretorio cs')"
    and "\<exists>es'. d = Diretorio es'"
proof -
  from limpar_formas [OF assms]
  consider (igual) "d = Diretorio es"
      "\<forall>t. caminho (Diretorio es) [''config'', ''config.env''] = Some (Arquivo t)
           \<longrightarrow> filtro b t = t"
    | (reescrito) cs0 t0 where "map_of es ''config'' = Some (Diretorio cs0)"
        "map_of cs0 ''config.env'' = Some (Arquivo t0)"
        "d = Diretorio (AList.update ''config''
               (Diretorio (AList.update ''config.env'' (Arquivo (filtro b t0)) cs0)) es)"
    by blast
  note formas = this
  show "\<exists>es'. d = Diretorio es'"
    by (rule formas) auto
  show "caminho d p = caminho (Diretorio es) p"
    if "p \<noteq> []" "p \<noteq> [''config'']" "p \<noteq> [''config'', ''config.env'']"
  proof (rule formas)
    assume "d = Diretorio es"
    then show ?thesis by simp
  next
    fix cs0 t0
    assume a: "map_of es ''config'' = Some (Diretorio cs0)"
      "map_of cs0 ''config.env'' = Some (Arquivo t0)"
      "d = Diretorio (AList.update ''config''
               (Diretorio (AList.update ''config.env'' (Arquivo (filtro b t0)) cs0)) es)"
    from caminho_reescrito(1) [OF a(1,2) that] a(3) show ?thesis by simp
  qed
  show "caminho d [''config'', ''config.env''] = Some (Arquivo (filtro b t))"
    if "caminho (Diretorio es) [''config'', ''config.env''] = Some (Arquivo t)"
  proof (rule formas)
    assume "d = Diretorio es"
      "\<forall>t. caminho (Diretorio es) [''config'', ''config.env''] = Some (Arquivo t)
           \<longrightarrow> filtro b t = t"
    with that show ?thesis by simp
  next
    fix cs0 t0
    assume a: "map_of es ''config'' = Some (Diretorio cs0)"
      "map_of cs0 ''config.env'' = Some (Arquivo t0)"
      "d = Diretorio (AList.update ''config''
               (Diretorio (AList.update ''config.env'' (Arquivo (filtro b t0)) cs0)) es)"
    from that a(1,2) have "t0 = t" by simp
    with caminho_reescrito(2) [OF a(1,2)] a(3) show ?thesis by simp
  qed
  show "caminho d [''config'', ''config.env''] = Some (Diretorio ds)"
    if "caminho (Diretorio es) [''config'', ''config.env''] = Some (Diretorio ds)"
  proof (rule formas)
    assume "d = Diretorio es"
    with that show ?thesis by simp
  next
    fix cs0 t0
    assume a: "map_of es ''config'' = Some (Diretorio cs0)"
      "map_of cs0 ''config.env'' = Some (Arquivo t0)"
    with that show ?thesis by simp
  qed
  show "caminho d [''config''] = Some (Arquivo t)"
    if "caminho (Diretorio es) [''config''] = Some (Arquivo t)"
  proof (rule formas)
    assume "d = Diretorio es"
    with that show ?thesis by simp
  next
    fix cs0 t0
    assume a: "map_of es ''config'' = Some (Diretorio cs0)"
    with that show ?thesis by (simp split: option.splits)
  qed
  show "\<exists>cs'. caminho d [''config''] = Some (Diretorio cs')"
    if "caminho (Diretorio es) [''config''] = Some (Diretorio cs)"
  proof (rule formas)
    assume "d = Diretorio es"
    with that show ?thesis by simp
  next
    fix cs0 t0
    assume a: "map_of es ''config'' = Some (Diretorio cs0)"
      "map_of cs0 ''config.env'' = Some (Arquivo t0)"
      "d = Diretorio (AList.update ''config''
               (Diretorio (AList.update ''config.env'' (Arquivo (filtro b t0)) cs0)) es)"
    from caminho_reescrito(3) [OF a(1,2)] a(3) show ?thesis by simp
  qed
qed

subsection \<open>One call of \<open>copiarDiretorio\<close>\<close>

text \<open>
  A call that returns has found the destination a file and the source without an entry to
  copy, or it has run the loop on the destination directory and cleaned the result.
\<close>

lemma copiar_passo:
  assumes dist: "distinct (map fst itens)"
    and c: "copiarDiretorio b (Some (Diretorio itens)) dst = Inr (ok, Some d)"
  shows "(\<exists>t. dst = Some (Arquivo t) \<and> d = Arquivo t \<and> (\<forall>e\<in>set itens. ignorado (fst e)))
       \<or> (\<exists>es es1. (\<forall>ks. caminho_opt dst (k # ks) = caminho_opt (map_of es k) ks)
            \<and> (\<forall>t. dst \<noteq> Some (Arquivo t))
            \<and> nivel b itens es k (map_of es1 k)
            \<and> (if fornecido b then limparConfigEnvBanco (Diretorio es1) (the b)
                else Inr (Diretorio es1)) = Inr d)"
proof -
  let ?d0 = "case dst of None \<Rightarrow> Diretorio [] | Some x \<Rightarrow> x"
  from c obtain d1 where d1: "copiarItens b itens ?d0 = Inr d1"
    and l: "(if fornecido b then limparConfigEnvBanco d1 (the b) else Inr d1) = Inr d"
    by (auto split: sum.splits if_splits)
  show ?thesis
  proof (cases ?d0)
    case (Arquivo t)
    then have dst: "dst = Some (Arquivo t)" by (cases dst) auto
    from copiarItens_arquivo [OF d1 [unfolded Arquivo]]
    have "d1 = Arquivo t" and ig: "\<forall>e\<in>set itens. ignorado (fst e)" by simp_all
    with l have "d = Arquivo t"
      by (auto simp: limparConfigEnvBanco_def split: if_splits)
    with dst ig show ?thesis by blast
  next
    case (Diretorio es)
    from copiarItens_nivel [OF dist d1 [unfolded Diretorio], of k]
    obtain es1 where es1: "d1 = Diretorio es1" and n: "nivel b itens es k (map_of es1 k)"
      by blast
    have "caminho_opt dst (k # ks) = caminho_opt (map_of es k) ks" for ks
      using Diretorio by (cases dst; cases "map_of es k") simp_all
    moreover have "\<forall>t. dst \<noteq> Some (Arquivo t)"
      using Diretorio by (cases dst) auto
    ultimately show ?thesis
      using n l es1 by blast
  qed
qed

lemma bem_formado_sub:
  "bem_formado (Diretorio itens) \<Longrightarrow> map_of itens k = Some n \<Longrightarrow> bem_formado n"
  by (auto dest: map_of_SomeD)

lemma conteudo_copiado_cons:
  "k # ks \<noteq> [''config'', ''config.env''] \<Longrightarrow>
   conteudo_copiado b (k # ks) c = conteudo_copiado b ks c"
proof (cases ks)
  case Nil
  then show ?thesis by (simp add: conteudo_copiado_def)
next
  case (Cons x xs)
  assume n: "k # ks \<noteq> [''config'', ''config.env'']"
  show ?thesis
  proof (cases xs)
    case Nil
    with Cons n show ?thesis by (auto simp: conteudo_copiado_def)
  next
    case (Cons y ys)
    with \<open>ks = x # xs\<close> have "drop (length (k # ks) - 2) (k # ks) = drop (length ks - 2) ks"
      by (simp add: Suc_diff_le)
    then show ?thesis by (simp add: conteudo_copiado_def)
  qed
qed

subsection \<open>What a copy leaves at a path\<close>

text \<open>A path through an excluded name leads, after the copy, to what it led to before.\<close>

lemma copia_excluidos:
  "bem_formado (Diretorio itens) \<Longrightarrow>
   copiarDiretorio b (Some (Diretorio itens)) dst = Inr (ok, Some d) \<Longrightarrow>
   \<exists>k\<in>set p. ignorado k \<Longrightarrow> caminho d p = caminho_opt dst p"
proof (induction p arbitrary: itens dst ok d)
  case Nil
  then show ?case by simp
next
  case (Cons k ks)
  from Cons.prems(1) have dist: "distinct (map fst itens)" by simp
  from Cons.prems(3) have nao: "k # ks \<noteq> []" "k # ks \<noteq> [''config'']"
    "k # ks \<noteq> [''config'', ''config.env'']"
    using nao_ignorado_config by auto
  from copiar_passo [OF dist Cons.prems(2), of k] show ?case
  proof (elim disjE exE conjE)
    fix t assume "dst = Some (Arquivo t)" "d = Arquivo t"
    then show ?thesis by simp
  next
    fix es es1
    assume dst: "\<forall>ks. caminho_opt dst (k # ks) = caminho_opt (map_of es k) ks"
      and n: "nivel b itens es k (map_of es1 k)"
      and l: "(if fornecido b then limparConfigEnvBanco (Diretorio es1) (the b)
               else Inr (Diretorio es1)) = Inr d"
    from limpar_caminho(1) [OF l nao]
    have d: "caminho d (k # ks) = caminho_opt (map_of es1 k) ks"
      by (simp add: caminho_cons del: caminho.simps)
    have "caminho_opt (map_of es1 k) ks = caminho_opt (map_of es k) ks"
    proof (cases "map_of itens k")
      case None
      with n show ?thesis by (simp add: nivel_def)
    next
      case (Some m)
      show ?thesis
      proof (cases "ignorado k")
        case True
        with n Some show ?thesis by (simp add: nivel_def)
      next
        case False
        with Cons.prems(3) have ks: "\<exists>k\<in>set ks. ignorado k" by simp
        then have ne: "ks \<noteq> []" by auto
        show ?thesis
        proof (cases m)
          case (Arquivo c)
          with n Some False have v: "map_of es1 k = Some (Arquivo c)"
            and nd: "\<forall>ds. map_of es k \<noteq> Some (Diretorio ds)"
            by (simp_all add: nivel_def)
          from nd have "caminho_opt (map_of es k) ks = None"
          proof (cases "map_of es k")
            case None
            then show ?thesis by simp
          next
            case (Some x)
            with nd obtain t where "x = Arquivo t" by (cases x) auto
            with Some ne show ?thesis by (simp add: caminho_arquivo)
          qed
          with v ne show ?thesis by (simp add: caminho_arquivo)
        next
          case (Diretorio sub)
          with n Some False obtain m' where
            c: "copiarDiretorio b (Some (Diretorio sub)) (map_of es k) = Inr (True, Some m')"
            and v: "map_of es1 k = Some m'"
            by (auto simp: nivel_def simp del: copiarDiretorio.simps)
          from bem_formado_sub [OF Cons.prems(1) Some] Diretorio
          have "bem_formado (Diretorio sub)" by simp
          from Cons.IH [OF this c ks] v show ?thesis by simp
        qed
      qed
    qed
    with d dst show ?thesis by simp
  qed
qed

text \<open>
  A file of the source on a path without an excluded name is, after the copy, a file at
  that path, with the content \<open>conteudo_copiado\<close> gives.
\<close>

lemma copia_arquivos:
  "bem_formado (Diretorio itens) \<Longrightarrow>
   copiarDiretorio b (Some (Diretorio itens)) dst = Inr (ok, Some d) \<Longrightarrow>
   \<forall>k\<in>set p. \<not> ignorado k \<Longrightarrow> caminho (Diretorio itens) p = Some (Arquivo c) \<Longrightarrow>
   caminho d p = Some (Arquivo (conteudo_copiado b p c))"
proof (induction p arbitrary: itens dst ok d)
  case Nil
  then show ?case by simp
next
  case (Cons k ks)
  from Cons.prems(1) have dist: "distinct (map fst itens)" by simp
  from Cons.prems(3) have k: "\<not> ignorado k" and ks: "\<forall>k\<in>set ks. \<not> ignorado k" by simp_all
  from Cons.prems(4) obtain m where m: "map_of itens k = Some m"
    and cm: "caminho m ks = Some (Arquivo c)"
    by (auto split: option.splits)
  from m have dentro: "(k, m) \<in> set itens" by (rule map_of_SomeD)
  from copiar_passo [OF dist Cons.prems(2), of k] show ?case
  proof (elim disjE exE conjE)
    assume "\<forall>e\<in>set itens. ignorado (fst e)"
    with dentro k show ?thesis by auto
  next
    fix es es1
    assume n: "nivel b itens es k (map_of es1 k)"
      and l: "(if fornecido b then limparConfigEnvBanco (Diretorio es1) (the b)
               else Inr (Diretorio es1)) = Inr d"
    show ?thesis
    proof (cases m)
      case (Arquivo c')
      with cm have vazio: "ks = []" and c': "c' = c"
        by (auto simp: caminho_arquivo split: if_splits)
      from n m k Arquivo c' have v: "map_of es1 k = Some (Arquivo c)"
        by (simp add: nivel_def)
      then have d1: "caminho (Diretorio es1) [k] = Some (Arquivo c)" by simp
      have "caminho d [k] = Some (Arquivo c)"
      proof (cases "k = ''config''")
        case True
        with limpar_caminho(4) [OF l] d1 show ?thesis by simp
      next
        case False
        with limpar_caminho(1) [OF l, of "[k]"] d1 show ?thesis by simp
      qed
      with vazio show ?thesis by (simp add: conteudo_copiado_def)
    next
      case (Diretorio sub)
      with cm have ne: "ks \<noteq> []" by auto
      from n m k Diretorio obtain m' where
        c: "copiarDiretorio b (Some (Diretorio sub)) (map_of es k) = Inr (True, Some m')"
        and v: "map_of es1 k = Some m'"
        by (auto simp: nivel_def simp del: copiarDiretorio.simps)
      from bem_formado_sub [OF Cons.prems(1) m] Diretorio
      have "bem_formado (Diretorio sub)" by simp
      from Cons.IH [OF this c ks] cm Diretorio
      have "caminho m' ks = Some (Arquivo (conteudo_copiado b ks c))" by simp
      with v have d1: "caminho (Diretorio es1) (k # ks)
                         = Some (Arquivo (conteudo_copiado b ks c))"
        by simp
      show ?thesis
      proof (cases "k # ks = [''config'', ''config.env'']")
        case True
        then have "conteudo_copiado b ks c = c"
          by (auto simp: conteudo_copiado_def)
        with limpar_caminho(2) [OF l, of c] d1 True show ?thesis
          by (simp add: conteudo_copiado_def)
      next
        case False
        with ne limpar_caminho(1) [OF l, of "k # ks"] d1
        have "caminho d (k # ks) = Some (Arquivo (conteudo_copiado b ks c))" by simp
        with conteudo_copiado_cons [OF False] show ?thesis by simp
      qed
    qed
  qed
qed

text \<open>
  A directory of the source on a path without an excluded name is, after the copy, a
  directory at that path, unless the destination held a file there.
\<close>

lemma copia_diretorios:
  "bem_formado (Diretorio itens) \<Longrightarrow>
   copiarDiretorio b (Some (Diretorio itens)) dst = Inr (ok, Some d) \<Longrightarrow>
   \<forall>k\<in>set p. \<not> ignorado k \<Longrightarrow> caminho (Diretorio itens) p = Some (Diretorio es0) \<Longrightarrow>
   \<forall>t. caminho_opt dst p \<noteq> Some (Arquivo t) \<Longrightarrow>
   \<exists>es'. caminho d p = Some (Diretorio es')"
proof (induction p arbitrary: itens dst ok d es0)
  case Nil
  from Nil.prems(1) have dist: "distinct (map fst itens)" by simp
  from copiar_passo [OF dist Nil.prems(2), of "[]"] show ?case
  proof (elim disjE exE conjE)
    fix t assume "dst = Some (Arquivo t)"
    with Nil.prems(5) show ?thesis by simp
  next
    fix es es1
    assume l: "(if fornecido b then limparConfigEnvBanco (Diretorio es1) (the b)
               else Inr (Diretorio es1)) = Inr d"
    from limpar_caminho(6) [OF l] show ?thesis by simp
  qed
next
  case (Cons k ks)
  from Cons.prems(1) have dist: "distinct (map fst itens)" by simp
  from Cons.prems(3) have k: "\<not> ignorado k" and ks: "\<forall>k\<in>set ks. \<not> ignorado k" by simp_all
  from Cons.prems(4) obtain m where m: "map_of itens k = Some m"
    and cm: "caminho m ks = Some (Diretorio es0)"
    by (auto split: option.splits)
  from m have dentro: "(k, m) \<in> set itens" by (rule map_of_SomeD)
  from cm obtain sub where sub: "m = Diretorio sub"
    by (cases m) (auto simp: caminho_arquivo split: if_splits)
  from copiar_passo [OF dist Cons.prems(2), of k] show ?case
  proof (elim disjE exE conjE)
    assume "\<forall>e\<in>set itens. ignorado (fst e)"
    with dentro k show ?thesis by auto
  next
    fix es es1
    assume dst: "\<forall>ks. caminho_opt dst (k # ks) = caminho_opt (map_of es k) ks"
      and n: "nivel b itens es k (map_of es1 k)"
      and l: "(if fornecido b then limparConfigEnvBanco (Diretorio es1) (the b)
               else Inr (Diretorio es1)) = Inr d"
    from n m k sub obtain m' where
      c: "copiarDiretorio b (Some (Diretorio sub)) (map_of es k) = Inr (True, Some m')"
      and v: "map_of es1 k = Some m'"
      by (auto simp: nivel_def simp del: copiarDiretorio.simps)
    from bem_formado_sub [OF Cons.prems(1) m] sub
    have wf: "bem_formado (Diretorio sub)" by simp
    from Cons.prems(5) dst have "\<forall>t. caminho_opt (map_of es k) ks \<noteq> Some (Arquivo t)"
      by simp
    from Cons.IH [OF wf c ks cm [unfolded sub] this]
    obtain es' where "caminho m' ks = Some (Diretorio es')" by blast
    with v have d1: "caminho (Diretorio es1) (k # ks) = Some (Diretorio es')" by simp
    show ?thesis
    proof (cases "k # ks = [''config'']")
      case True
      with limpar_caminho(5) [OF l, of es'] d1 show ?thesis by simp
    next
      case c1: False
      show ?thesis
      proof (cases "k # ks = [''config'', ''config.env'']")
        case True
        with limpar_caminho(3) [OF l, of es'] d1 show ?thesis by simp
      next
        case False
        with c1 limpar_caminho(1) [OF l, of "k # ks"] d1 show ?thesis by simp
      qed
    qed
  qed
qed

subsection \<open>The copy excludes and copies\<close>

text \<open>
  A source tree with a dependency cache, a log directory, dot entries, a credential file
  and nested directories.
\<close>

definition itens_ex :: "(string \<times> no) list" where
  "itens_ex = [
     (''index.js'', Arquivo ''console.log(1)''),
     (''node_modules'', Diretorio [(''x.js'', Arquivo ''x'')]),
     (''.env'', Arquivo ''SECRET=1''),
     (''logs'', Diretorio []),
     (''config'', Diretorio [(''config.env'',
                              Arquivo ''V8_USERNAME=a\<newline>HUBCREDITO_USR=b\<newline># fim''),
                             (''.git'', Diretorio [])]),
     (''src'', Diretorio [(''a.js'', Arquivo ''a''),
                          (''logs'', Diretorio [(''l.txt'', Arquivo ''l'')])])]"

definition arvore_ex :: no where
  "arvore_ex = Diretorio itens_ex"

lemma ignorado_ex:
  "\<not> ignorado ''index.js''" "ignorado ''node_modules''" "ignorado ''.env''" "ignorado ''logs''"
  "\<not> ignorado ''config''" "\<not> ignorado ''config.env''" "ignorado ''.git''" "\<not> ignorado ''src''"
  "\<not> ignorado ''a.js''"
  by (simp_all add: ignorado_def startsWith_def)

text \<open>
  Claim C6, as stated, fails. Copied for the integration \<open>v8\<close>, the file
  \<open>config/config.env\<close> is not excluded, but its content in the destination is not that of
  the source: the line of another integration is gone. And a destination that exists
  keeps the excluded entries it has: copied with no identifier to a directory that holds a
  \<open>node_modules\<close>, the tree leaves a destination that still holds it.
\<close>

theorem copiarDiretorio_filters_config_env:
  "caminho arvore_ex [''config'', ''config.env'']
       = Some (Arquivo ''V8_USERNAME=a\<newline>HUBCREDITO_USR=b\<newline># fim'')
   \<and> (case copiarDiretorio (Some ''v8'') (Some arvore_ex) None of
         Inr (ok, Some d) \<Rightarrow> caminho d [''config'', ''config.env'']
       | _ \<Rightarrow> None)
       = Some (Arquivo ''V8_USERNAME=a\<newline># fim'')
   \<and> (case copiarDiretorio None (Some arvore_ex)
              (Some (Diretorio [(''node_modules'', Diretorio [(''y.js'', Arquivo ''y'')])])) of
         Inr (ok, Some d) \<Rightarrow> caminho d [''node_modules'', ''y.js'']
       | _ \<Rightarrow> None)
       = Some (Arquivo ''y'')"
  by (simp add: arvore_ex_def itens_ex_def ignorado_ex fornecido_def limparConfigEnvBanco_def
      credenciaisPorBanco_def pasta_do_banco_def pasta_presencabank_def chave_presencabank_def
      filtrar_config_def manter_linha_def trim_def is_space_def startsWith_def Let_def)

text \<open>
  Claim C6, amended. Take a well-formed source directory, any integration identifier or
  none, and any destination, existing or not. A copy with no identifier to a destination
  that does not exist returns, and the destination is the source without its excluded
  entries. Whenever \<open>copiarDiretorio\<close> returns, it returns \<open>true\<close> and

  \<^item> a path through an excluded name, at any level, leads in the destination to what it
    led to before the copy, so to nothing when the destination did not exist;

  \<^item> a file of the source whose path has no excluded name is in the destination at the
    same path, with the same content, except that the content of the \<open>config/config.env\<close>
    of a copied directory has gone through the filter of the integration when an
    identifier with rules is supplied;

  \<^item> a directory of the source whose path has no excluded name is a directory of the
    destination, unless the destination held a file at that path.
\<close>

theorem copiarDiretorio_exclusion:
  "bem_formado (Diretorio itens) \<Longrightarrow>
   (\<not> fornecido b \<longrightarrow>
      copiarDiretorio b (Some (Diretorio itens)) None
        = Inr (True, Some (podar (Diretorio itens))))
   \<and> (\<forall>dst ok d. copiarDiretorio b (Some (Diretorio itens)) dst = Inr (ok, Some d) \<longrightarrow>
        ok
        \<and> (\<forall>p. (\<exists>k\<in>set p. ignorado k) \<longrightarrow> caminho d p = caminho_opt dst p)
        \<and> (\<forall>p c. (\<forall>k\<in>set p. \<not> ignorado k) \<longrightarrow>
                 caminho (Diretorio itens) p = Some (Arquivo c) \<longrightarrow>
                 caminho d p = Some (Arquivo (conteudo_copiado b p c)))
        \<and> (\<forall>p es. (\<forall>k\<in>set p. \<not> ignorado k) \<longrightarrow>
                  caminho (Diretorio itens) p = Some (Diretorio es) \<longrightarrow>
                  (\<forall>t. caminho_opt dst p \<noteq> Some (Arquivo t)) \<longrightarrow>
                  (\<exists>es'. caminho d p = Some (Diretorio es'))))"
proof (intro conjI impI allI)
  assume wf: "bem_formado (Diretorio itens)"
  {
    assume "\<not> fornecido b"
    then show "copiarDiretorio b (Some (Diretorio itens)) None
                 = Inr (True, Some (podar (Diretorio itens)))"
      using wf by (rule copiarDiretorio_sem_banco)
  }
  fix dst ok d
  assume c: "copiarDiretorio b (Some (Diretorio itens)) dst = Inr (ok, Some d)"
  from copiarDiretorio_Inr [OF c] show ok by simp
  {
    fix p assume "\<exists>k\<in>set p. ignorado k"
    with wf c show "caminho d p = caminho_opt dst p" by (rule copia_excluidos)
  }
  {
    fix p c'
    assume "\<forall>k\<in>set p. \<not> ignorado k" "caminho (Diretorio itens) p = Some (Arquivo c')"
    with wf c show "caminho d p = Some (Arquivo (conteudo_copiado b p c'))"
      by (rule copia_arquivos)
  }
  {
    fix p es
    assume "\<forall>k\<in>set p. \<not> ignorado k" "caminho (Diretorio itens) p = Some (Diretorio es)"
      "\<forall>t. caminho_opt dst p \<noteq> Some (Arquivo t)"
    with wf c show "\<exists>es'. caminho d p = Some (Diretorio es')"
      by (rule copia_diretorios)
  }
qed

text \<open>The tree the copy for the integration \<open>v8\<close> leaves where nothing was.\<close>

definition copia_v8 :: no where
  "copia_v8 = Diretorio [
     (''index.js'', Arquivo ''console.log(1)''),
     (''config'', Diretorio [(''config.env'', Arquivo ''V8_USERNAME=a\<newline># fim'')]),
     (''src'', Diretorio [(''a.js'', Arquivo ''a'')])]"

lemma copia_v8_ok:
  "copiarDiretorio (Some ''v8'') (Some (Diretorio itens_ex)) None = Inr (True, Some copia_v8)"
  by (simp add: copia_v8_def itens_ex_def ignorado_ex fornecido_def limparConfigEnvBanco_def
      credenciaisPorBanco_def pasta_do_banco_def pasta_presencabank_def chave_presencabank_def
      filtrar_config_def manter_linha_def trim_def is_space_def startsWith_def Let_def)

lemma conteudo_v8:
  "conteudo_copiado (Some ''v8'') [''config'', ''config.env'']
     ''V8_USERNAME=a\<newline>HUBCREDITO_USR=b\<newline># fim'' = ''V8_USERNAME=a\<newline># fim''"
  by (simp add: conteudo_copiado_def filtro_def fornecido_def
      credenciaisPorBanco_def pasta_do_banco_def pasta_presencabank_def chave_presencabank_def
      filtrar_config_def manter_linha_def trim_def is_space_def startsWith_def Let_def)

theorem copiarDiretorio_exclusion_witness:
  "copiarDiretorio None (Some (Diretorio itens_ex)) None =
     Inr (True, Some (Diretorio [
       (''index.js'', Arquivo ''console.log(1)''),
       (''config'', Diretorio [(''config.env'',
                                Arquivo ''V8_USERNAME=a\<newline>HUBCREDITO_USR=b\<newline># fim'')]),
       (''src'', Diretorio [(''a.js'', Arquivo ''a'')])]))
   \<and> copiarDiretorio (Some ''v8'') (Some (Diretorio itens_ex)) None = Inr (True, Some copia_v8)
   \<and> caminho copia_v8 [''node_modules'', ''x.js''] = None
   \<and> caminho copia_v8 [''src'', ''logs'', ''l.txt''] = None
   \<and> caminho copia_v8 [''.env''] = None
   \<and> caminho copia_v8 [''src'', ''a.js''] = Some (Arquivo ''a'')
   \<and> caminho copia_v8 [''config'', ''config.env''] = Some (Arquivo ''V8_USERNAME=a\<newline># fim'')
   \<and> (\<exists>es'. caminho copia_v8 [''src''] = Some (Diretorio es'))"
proof -
  have wf: "bem_formado (Diretorio itens_ex)"
    by (simp add: itens_ex_def)
  have p: "podar (Diretorio itens_ex) = Diretorio [
       (''index.js'', Arquivo ''console.log(1)''),
       (''config'', Diretorio [(''config.env'',
                                Arquivo ''V8_USERNAME=a\<newline>HUBCREDITO_USR=b\<newline># fim'')]),
       (''src'', Diretorio [(''a.js'', Arquivo ''a'')])]"
    by (simp add: itens_ex_def ignorado_ex)
  have n: "\<not> fornecido None" by (simp add: fornecido_def)
  from copiarDiretorio_exclusion [OF wf, of None] n p
  have a: "copiarDiretorio None (Some (Diretorio itens_ex)) None =
     Inr (True, Some (Diretorio [
       (''index.js'', Arquivo ''console.log(1)''),
       (''config'', Diretorio [(''config.env'',
                                Arquivo ''V8_USERNAME=a\<newline>HUBCREDITO_USR=b\<newline># fim'')]),
       (''src'', Diretorio [(''a.js'', Arquivo ''a'')])]))"
    by simp
  from copiarDiretorio_exclusion [OF wf, of "Some ''v8''"] copia_v8_ok
  have e: "\<And>p. \<exists>k\<in>set p. ignorado k \<Longrightarrow> caminho copia_v8 p = caminho_opt None p"
    and f: "\<And>p c. \<forall>k\<in>set p. \<not> ignorado k \<Longrightarrow> caminho (Diretorio itens_ex) p = Some (Arquivo c)
              \<Longrightarrow> caminho copia_v8 p = Some (Arquivo (conteudo_copiado (Some ''v8'') p c))"
    and g: "\<And>p es. \<forall>k\<in>set p. \<not> ignorado k \<Longrightarrow> caminho (Diretorio itens_ex) p = Some (Diretorio es)
              \<Longrightarrow> \<forall>t. caminho_opt None p \<noteq> Some (Arquivo t)
              \<Longrightarrow> \<exists>es'. caminho copia_v8 p = Some (Diretorio es')"
    by blast+
  have 1: "caminho copia_v8 [''node_modules'', ''x.js''] = None"
    using e [of "[''node_modules'', ''x.js'']"] by (simp add: ignorado_ex)
  have 2: "caminho copia_v8 [''src'', ''logs'', ''l.txt''] = None"
    using e [of "[''src'', ''logs'', ''l.txt'']"] by (simp add: ignorado_ex)
  have 3: "caminho copia_v8 [''.env''] = None"
    using e [of "[''.env'']"] by (simp add: ignorado_ex)
  have 4: "caminho copia_v8 [''src'', ''a.js''] = Some (Arquivo ''a'')"
    using f [of "[''src'', ''a.js'']" "''a''"]
    by (simp add: ignorado_ex itens_ex_def conteudo_copiado_def)
  have 5: "caminho copia_v8 [''config'', ''config.env'']
             = Some (Arquivo ''V8_USERNAME=a\<newline># fim'')"
    using f [of "[''config'', ''config.env'']"
        "''V8_USERNAME=a\<newline>HUBCREDITO_USR=b\<newline># fim''"]
    by (simp add: ignorado_ex itens_ex_def conteudo_v8)
  have 6: "\<exists>es'. caminho copia_v8 [''src''] = Some (Diretorio es')"
    using g [of "[''src'']"] by (simp add: ignorado_ex itens_ex_def)
  from a copia_v8_ok 1 2 3 4 5 6 show ?thesis by blast
qed

subsection \<open>The pipeline reference of an environment\<close>

text \<open>
  An operation introduces no pipeline reference when every \<open>pipelineKentro\<close> of the store
  afterwards is \<open>null\<close> or was in the store before.
\<close>

definition sem_pipeline_novo :: "database \<Rightarrow> database \<Rightarrow> bool" where
  "sem_pipeline_novo db db' =
     (set (map pipelineKentro (ambientes db'))
        \<subseteq> insert None (set (map pipelineKentro (ambientes db))))"

lemma sem_pipeline_novo_refl: "sem_pipeline_novo db db"
  by (auto simp: sem_pipeline_novo_def)

lemma sem_pipeline_novo_create:
  "sem_pipeline_novo (visivel s)
     (visivel (snd (createAmbiente H agora criou saved n p u pw bs pl s)))"
  by (auto simp: createAmbiente_visivel sem_pipeline_novo_def novoAmbiente_def)

lemma updateBancosPermitidos_visivel:
  "visivel (snd (updateBancosPermitidos agora criou saved aid bs s)) =
     (case find (\<lambda>a. id_a a = aid) (ambientes (visivel s)) of
        None \<Rightarrow> visivel s
      | Some a \<Rightarrow>
          if mutacao_fica criou saved s
          then (visivel s)\<lparr>ambientes :=
                 atualizar_primeiro (\<lambda>a. id_a a = aid)
                   (\<lambda>_. a\<lparr>bancosPermitidos := bs, atualizadoEm := agora\<rparr>)
                   (ambientes (visivel s))\<rparr>
          else visivel s)"
proof -
  obtain db al s1 where l: "loadDatabase criou s = (db, al, s1)"
    by (cases "loadDatabase criou s") auto
  from loadDatabase_visivel [OF l] salvar_mutado_visivel [OF l] l show ?thesis
    by (simp add: updateBancosPermitidos_def Let_def split: option.splits)
qed

lemma sem_pipeline_novo_bancos:
  "sem_pipeline_novo (visivel s)
     (visivel (snd (updateBancosPermitidos agora criou saved aid bs s)))"
proof (cases "find (\<lambda>a. id_a a = aid) (ambientes (visivel s))")
  case None
  then show ?thesis by (simp add: updateBancosPermitidos_visivel sem_pipeline_novo_refl)
next
  case (Some a)
  then have a: "a \<in> set (ambientes (visivel s))" by (auto dest: find_Some_set)
  have "pipelineKentro x \<in> insert None (pipelineKentro ` set (ambientes (visivel s)))"
    if "x \<in> set (atualizar_primeiro (\<lambda>a. id_a a = aid)
               (\<lambda>_. a\<lparr>bancosPermitidos := bs, atualizadoEm := agora\<rparr>)
               (ambientes (visivel s)))" for x
    using set_atualizar_primeiro [OF that] a by auto
  with Some show ?thesis
    by (auto simp: updateBancosPermitidos_visivel sem_pipeline_novo_def)
qed

lemma sem_pipeline_novo_delete:
  "sem_pipeline_novo (visivel s) (visivel (snd (deleteAmbiente criou saved pasta aid s)))"
  by (auto simp: deleteAmbiente_visivel sem_pipeline_novo_def
      split: option.splits dest: in_set_takeD in_set_dropD)

lemma pipelines_registrar:
  "set (map pipelineKentro (fst (registrar_detectado H agora d st)))
     \<subseteq> insert None (set (map pipelineKentro (fst st)))"
proof (cases st)
  case (Pair ambs res)
  have "pipelineKentro x \<in> pipelineKentro ` set ambs"
    if "x \<in> set (atualizar_primeiro P
          (\<lambda>ex. ex\<lparr> path := v, bancosPermitidos := w ex, atualizadoEm := agora, ativo := True \<rparr>)
          ambs)" for x P v w
    using set_atualizar_primeiro [OF that] by auto
  with Pair show ?thesis
    by (auto simp: registrar_detectado_def Let_def split: option.splits)
qed

lemma pipelines_fold:
  "set (map pipelineKentro (fst (fold (registrar_detectado H agora) ds st)))
     \<subseteq> insert None (set (map pipelineKentro (fst st)))"
proof (induction ds arbitrary: st)
  case Nil
  then show ?case by auto
next
  case (Cons d ds)
  from Cons [of "registrar_detectado H agora d st"] pipelines_registrar [of H agora d st]
  show ?case by auto
qed

lemma sem_pipeline_novo_sincronizar:
  "sem_pipeline_novo (visivel s)
     (visivel (snd (sincronizarAmbientesExistentes H agora base criou saved s)))"
proof -
  let ?ds = "detectarAmbientesExistentes base"
  let ?st1 = "fold (registrar_detectado H agora) ?ds
                (ambientes (visivel s), \<lparr> criados = [], atualizados = [], existentes = [] \<rparr>)"
  have e: "map pipelineKentro (fst (reconciliar H agora ?ds (ambientes (visivel s))))
             = map pipelineKentro (fst ?st1)"
    by (cases ?st1) (simp add: reconciliar_def marcar_inativos_def)
  have "set (map pipelineKentro (fst (reconciliar H agora ?ds (ambientes (visivel s)))))
          \<subseteq> insert None (set (map pipelineKentro (ambientes (visivel s))))"
    unfolding e
    using pipelines_fold [of H agora ?ds
        "(ambientes (visivel s), \<lparr> criados = [], atualizados = [], existentes = [] \<rparr>)"]
    by simp
  then show ?thesis
    by (auto simp add: sem_pipeline_novo_def sincronizar_visivel)
qed

text \<open>
  Claim C9. Whatever pipeline reference the caller passes, \<open>createAmbiente\<close> does what it
  does with \<open>null\<close>. On failure the store holds what it held. On success the store keeps its
  records and, when the write succeeds, has gained one, whose \<open>pipelineKentro\<close> is \<open>null\<close>;
  whether the write succeeds or not, the store holds what it held or has gained that
  record. Neither \<open>createAmbiente\<close> nor \<open>updateBancosPermitidos\<close>, \<open>deleteAmbiente\<close> or the
  reconciliation introduces a pipeline reference, whatever the outcome of their writes: it
  takes \<open>updateAmbiente\<close> to set one.
\<close>

theorem createAmbiente_pipeline_null:
  "createAmbiente H agora criou saved n p u pw bs pl s
     = createAmbiente H agora criou saved n p u pw bs None s
   \<and> (case createAmbiente H agora criou saved n p u pw bs pl s of
        (Inl e, s') \<Rightarrow> visivel s' = visivel s
      | (Inr v, s') \<Rightarrow>
          (visivel s' = visivel s
           \<or> (butlast (ambientes (visivel s')) = ambientes (visivel s)
              \<and> last (ambientes (visivel s')) = novoAmbiente H agora n p u pw bs
              \<and> pipelineKentro (last (ambientes (visivel s'))) = None))
          \<and> (saved \<longrightarrow>
                butlast (ambientes (visivel s')) = ambientes (visivel s)
              \<and> last (ambientes (visivel s')) = novoAmbiente H agora n p u pw bs
              \<and> pipelineKentro (last (ambientes (visivel s'))) = None))
   \<and> sem_pipeline_novo (visivel s)
       (visivel (snd (createAmbiente H agora criou saved n p u pw bs pl s)))
   \<and> sem_pipeline_novo (visivel s)
       (visivel (snd (updateBancosPermitidos agora criou saved aid bs' s)))
   \<and> sem_pipeline_novo (visivel s)
       (visivel (snd (deleteAmbiente criou saved pasta aid s)))
   \<and> sem_pipeline_novo (visivel s)
       (visivel (snd (sincronizarAmbientesExistentes H agora base criou saved s)))"
proof -
  let ?c = "createAmbiente H agora criou saved n p u pw bs pl s"
  have a: "?c = createAmbiente H agora criou saved n p u pw bs None s"
    by (simp add: createAmbiente_def)
  have f: "fst ?c = (case find (\<lambda>a. porta a = p) (ambientes (visivel s)) of
        Some _ \<Rightarrow> Inl (PortaEmUso p)
      | None \<Rightarrow>
          (case find (\<lambda>a. nome a = n) (ambientes (visivel s)) of
             Some _ \<Rightarrow> Inl (AmbienteJaExiste n)
           | None \<Rightarrow>
               (let novo = novoAmbiente H agora n p u pw bs in
                Inr \<lparr> id_c = id_a novo, nome_c = nome novo, porta_c = porta novo,
                      path_c = path novo, bancosPermitidos_c = bancosPermitidos novo \<rparr>)))"
    by (rule createAmbiente_fst)
  have v: "visivel (snd ?c) =
     (if find (\<lambda>a. porta a = p) (ambientes (visivel s)) = None
         \<and> find (\<lambda>a. nome a = n) (ambientes (visivel s)) = None
         \<and> mutacao_fica criou saved s
      then (visivel s)\<lparr>ambientes := ambientes (visivel s) @ [novoAmbiente H agora n p u pw bs]\<rparr>
      else visivel s)"
    by (rule createAmbiente_visivel)
  have b: "case ?c of
        (Inl e, s') \<Rightarrow> visivel s' = visivel s
      | (Inr v, s') \<Rightarrow>
          (visivel s' = visivel s
           \<or> (butlast (ambientes (visivel s')) = ambientes (visivel s)
              \<and> last (ambientes (visivel s')) = novoAmbiente H agora n p u pw bs
              \<and> pipelineKentro (last (ambientes (visivel s'))) = None))
          \<and> (saved \<longrightarrow>
                butlast (ambientes (visivel s')) = ambientes (visivel s)
              \<and> last (ambientes (visivel s')) = novoAmbiente H agora n p u pw bs
              \<and> pipelineKentro (last (ambientes (visivel s'))) = None)"
  proof (cases ?c)
    case (Pair r s')
    with f v have f': "r = (case find (\<lambda>a. porta a = p) (ambientes (visivel s)) of
        Some _ \<Rightarrow> Inl (PortaEmUso p)
      | None \<Rightarrow>
          (case find (\<lambda>a. nome a = n) (ambientes (visivel s)) of
             Some _ \<Rightarrow> Inl (AmbienteJaExiste n)
           | None \<Rightarrow>
               (let novo = novoAmbiente H agora n p u pw bs in
                Inr \<lparr> id_c = id_a novo, nome_c = nome novo, porta_c = porta novo,
                      path_c = path novo, bancosPermitidos_c = bancosPermitidos novo \<rparr>)))"
      and v': "visivel s' =
     (if find (\<lambda>a. porta a = p) (ambientes (visivel s)) = None
         \<and> find (\<lambda>a. nome a = n) (ambientes (visivel s)) = None
         \<and> mutacao_fica criou saved s
      then (visivel s)\<lparr>ambientes := ambientes (visivel s) @ [novoAmbiente H agora n p u pw bs]\<rparr>
      else visivel s)"
      by simp_all
    show ?thesis
      unfolding Pair
      by (cases r) (auto simp: f' v' novoAmbiente_def Let_def split: option.splits)
  qed
  show ?thesis
    by (intro conjI a b sem_pipeline_novo_create sem_pipeline_novo_bancos
        sem_pipeline_novo_delete sem_pipeline_novo_sincronizar)
qed

text \<open>A later \<open>updateAmbiente\<close> does set the pipeline reference of the environment.\<close>

lemma updateAmbiente_sets_pipeline:
  "map pipelineKentro (ambientes (visivel (snd (updateAmbiente 3 True True ''ambiente-1''
      \<lparr> nome_u = None, pipelineKentro_u = Some (Some ''funil-7''), ativo_u = None \<rparr> (s_qa H)))))
   = [Some ''funil-7'']"
  by (simp add: updateAmbiente_def loadDatabase_def salvar_mutado_def saveDatabase_def s_qa_def
      db_qa_eq Let_def)

theorem createAmbiente_pipeline_null_witness:
  "\<forall>H. createAmbiente H 2 True True ''QB'' 5006 ''bia'' ''outra'' [] (Some ''funil-7'') (s_qa H)
         = createAmbiente H 2 True True ''QB'' 5006 ''bia'' ''outra'' [] None (s_qa H)
     \<and> map pipelineKentro (ambientes (visivel (snd
          (createAmbiente H 2 True True ''QB'' 5006 ''bia'' ''outra'' [] (Some ''funil-7'') (s_qa H)))))
         = [None, None]
     \<and> pipelineKentro (last (ambientes (visivel (snd
          (createAmbiente H 2 True True ''QB'' 5006 ''bia'' ''outra'' [] (Some ''funil-7'') (s_qa H))))))
         = None"
proof (intro allI)
  fix H :: "string \<Rightarrow> string"
  let ?c = "createAmbiente H 2 True True ''QB'' 5006 ''bia'' ''outra'' [] (Some ''funil-7'') (s_qa H)"
  have r: "fst ?c = Inr \<lparr> id_c = ''ambiente-2'', nome_c = ''QB'', porta_c = 5006,
                  path_c = ''rota-5006.producao'', bancosPermitidos_c = [] \<rparr>"
    by (simp add: createAmbiente_fst db_qa_eq novoAmbiente_def decimal.simps digito_def)
  have m: "map pipelineKentro (ambientes (visivel (snd ?c))) = [None, None]"
    by (simp add: createAmbiente_visivel db_qa_eq novoAmbiente_def)
  obtain r s' where c: "?c = (r, s')" by (cases ?c)
  with r have ri: "r = Inr \<lparr> id_c = ''ambiente-2'', nome_c = ''QB'', porta_c = 5006,
                  path_c = ''rota-5006.producao'', bancosPermitidos_c = [] \<rparr>"
    by simp
  have t: "?c = createAmbiente H 2 True True ''QB'' 5006 ''bia'' ''outra'' [] None (s_qa H)
      \<and> (case ?c of
            (Inl e, s') \<Rightarrow> visivel s' = visivel (s_qa H)
          | (Inr v, s') \<Rightarrow>
              (visivel s' = visivel (s_qa H)
               \<or> (butlast (ambientes (visivel s')) = ambientes (visivel (s_qa H))
                  \<and> last (ambientes (visivel s'))
                      = novoAmbiente H 2 ''QB'' 5006 ''bia'' ''outra'' []
                  \<and> pipelineKentro (last (ambientes (visivel s'))) = None))
              \<and> (True \<longrightarrow>
                    butlast (ambientes (visivel s')) = ambientes (visivel (s_qa H))
                  \<and> last (ambientes (visivel s'))
                      = novoAmbiente H 2 ''QB'' 5006 ''bia'' ''outra'' []
                  \<and> pipelineKentro (last (ambientes (visivel s'))) = None))"
    using createAmbiente_pipeline_null [where H=H and agora=2 and criou=True and saved=True
      and n="''QB''" and p=5006 and u="''bia''" and pw="''outra''" and bs="[]"
      and pl="Some ''funil-7''" and s="s_qa H" and aid="[]" and bs'="[]"
      and pasta="\<lambda>p. PastaRemovida" and base=None]
    by - (elim conjE, intro conjI, assumption+)
  then have "pipelineKentro (last (ambientes (visivel s'))) = None"
    unfolding c ri by auto
  then have "pipelineKentro (last (ambientes (visivel (snd ?c)))) = None"
    by (simp add: c)
  with t m show "?c = createAmbiente H 2 True True ''QB'' 5006 ''bia'' ''outra'' [] None (s_qa H)
     \<and> map pipelineKentro (ambientes (visivel (snd ?c))) = [None, None]
     \<and> pipelineKentro (last (ambientes (visivel (snd ?c)))) = None"
    by blast
qed

end
